theory Spec2Isabelle
  imports Main "HOL-Library.Char_ord"
begin

unbundle bit_operations_syntax

section \<open>Go strings and the library functions the provider calls\<close>

text \<open>
  A Go string is a sequence of bytes, and so is an Isabelle \<open>string\<close>: \<open>length\<close> is Go's
  \<open>len\<close>, \<open>take i s\<close> is \<open>s[:i]\<close>, \<open>drop i s\<close> is \<open>s[i:]\<close>. The functions of this section are
  those of Go's \<open>strings\<close> and \<open>strconv\<close> packages that the provider's helpers call.
\<close>

definition HasPrefix :: "string \<Rightarrow> string \<Rightarrow> bool" where
  "HasPrefix s prefix = (length s \<ge> length prefix \<and> take (length prefix) s = prefix)"

definition TrimPrefix :: "string \<Rightarrow> string \<Rightarrow> string" where
  "TrimPrefix s prefix = (if HasPrefix s prefix then drop (length prefix) s else s)"

text \<open>
  \<open>strings.ToUpper\<close> on ASCII bytes: \<open>a\<close>..\<open>z\<close> lose \<open>'a' - 'A'\<close>. A byte above 127 is left
  as it is here; Go maps it through the Unicode tables, which send no character beyond
  ASCII to a digit or to a letter \<open>A\<close>..\<open>F\<close>, so the pattern check that follows the call in
  \<open>hexToDecimal\<close> rejects such a string in Go and in this model alike.
\<close>

definition toUpperByte :: "char \<Rightarrow> char" where
  "toUpperByte c =
     (if CHR ''a'' \<le> c \<and> c \<le> CHR ''z''
      then char_of ((of_char c :: int) - (of_char CHR ''a'' - of_char CHR ''A''))
      else c)"

definition ToUpper :: "string \<Rightarrow> string" where
  "ToUpper s = map toUpperByte s"

text \<open>\<open>strconv\<close>: \<open>lower(c) = c | ('x' - 'X')\<close>, and the digit a byte stands for.\<close>

definition lower :: "char \<Rightarrow> char" where
  "lower c = char_of ((of_char c :: int) OR (of_char CHR ''x'' - of_char CHR ''X''))"

datatype num_error = ErrSyntax | ErrRange

definition digitOf :: "char \<Rightarrow> int option" where
  "digitOf c =
     (if CHR ''0'' \<le> c \<and> c \<le> CHR ''9'' then Some (of_char c - of_char CHR ''0'')
      else if CHR ''a'' \<le> lower c \<and> lower c \<le> CHR ''z''
      then Some (of_char (lower c) - of_char CHR ''a'' + 10)
      else None)"

definition maxUint64 :: int where
  "maxUint64 = 2 ^ 64 - 1"

text \<open>
  The loop of \<open>strconv.ParseUint\<close> for an explicit base and 64 bits. The accumulator is a
  \<open>uint64\<close>: the product is guarded by the cutoff, the sum wraps modulo \<open>2 ^ 64\<close> and the
  wrap is detected by \<open>n1 < n\<close>.
\<close>

fun parseUintLoop :: "int \<Rightarrow> int \<Rightarrow> string \<Rightarrow> num_error + int" where
  "parseUintLoop base n [] = Inr n"
| "parseUintLoop base n (c # cs) =
     (case digitOf c of
        None \<Rightarrow> Inl ErrSyntax
      | Some d \<Rightarrow>
          if d \<ge> base then Inl ErrSyntax
          else if n \<ge> maxUint64 div base + 1 then Inl ErrRange
          else
            let n' = n * base;
                n1 = (n' + d) mod 2 ^ 64
            in if n1 < n' \<or> n1 > maxUint64 then Inl ErrRange
               else parseUintLoop base n1 cs)"

definition ParseUint :: "string \<Rightarrow> int \<Rightarrow> num_error + int" where
  "ParseUint s base = (if s = [] then Inl ErrSyntax else parseUintLoop base 0 s)"

text \<open>\<open>strconv.ParseInt(s, base, 64)\<close>: an optional sign, then \<open>ParseUint\<close>, then the range of \<open>int64\<close>.\<close>

definition ParseInt :: "string \<Rightarrow> int \<Rightarrow> num_error + int" where
  "ParseInt s base =
     (if s = [] then Inl ErrSyntax
      else
        let neg = (hd s = CHR ''-'');
            s' = (if hd s = CHR ''+'' \<or> hd s = CHR ''-'' then tl s else s)
        in case ParseUint s' base of
             Inl e \<Rightarrow> Inl e
           | Inr un \<Rightarrow>
               if \<not> neg \<and> un \<ge> 2 ^ 63 then Inl ErrRange
               else if neg \<and> un > 2 ^ 63 then Inl ErrRange
               else Inr (if neg then - un else un))"

text \<open>\<open>strings.Split(s, sep)\<close> for a one-byte separator: the pieces between the separators.\<close>

fun Split :: "string \<Rightarrow> char \<Rightarrow> string list" where
  "Split [] sep = [[]]"
| "Split (c # cs) sep =
     (if c = sep then [] # Split cs sep
      else (case Split cs sep of [] \<Rightarrow> [[c]] | p # ps \<Rightarrow> (c # p) # ps))"

section \<open>Regular expressions of the colour converter\<close>

text \<open>
  The two patterns of \<open>data_source_color.go\<close> are sequences of literals, character classes
  and greedy repetitions of one class, anchored at both ends. In Go's syntax \<open>\d\<close> is
  \<open>[0-9]\<close> and \<open>\s\<close> is tab, newline, form feed, carriage return and space. A pattern is a
  list of items; \<open>Digits\<close> is the captured group \<open>(\d+)\<close>.
\<close>

definition isDigit :: "char \<Rightarrow> bool" where
  "isDigit c = (c \<in> set ''0123456789'')"

definition isSpace :: "char \<Rightarrow> bool" where
  "isSpace c = (c \<in> set [CHR 0x09, CHR 0x0A, CHR 0x0C, CHR 0x0D, CHR '' ''])"

definition isUpperHex :: "char \<Rightarrow> bool" where
  "isUpperHex c = (c \<in> set ''0123456789ABCDEF'')"

datatype item = Lit char | Spaces | Digits

fun matchItems :: "item list \<Rightarrow> string \<Rightarrow> string list \<Rightarrow> string list option" where
  "matchItems [] s caps = (if s = [] then Some caps else None)"
| "matchItems (Lit c # its) s caps =
     (case s of [] \<Rightarrow> None | x # xs \<Rightarrow> if x = c then matchItems its xs caps else None)"
| "matchItems (Spaces # its) s caps = matchItems its (dropWhile isSpace s) caps"
| "matchItems (Digits # its) s caps =
     (if takeWhile isDigit s = [] then None
      else matchItems its (dropWhile isDigit s) (caps @ [takeWhile isDigit s]))"

text \<open>\<open>^[0-9A-F]+$\<close>\<close>

definition hexPattern :: "string \<Rightarrow> bool" where
  "hexPattern s = (s \<noteq> [] \<and> list_all isUpperHex s)"

text \<open>\<open>^rgb\s*\(\s*(\d+)\s*,\s*(\d+)\s*,\s*(\d+)\s*\)$\<close>\<close>

definition rgbRegex :: "item list" where
  "rgbRegex =
     [Lit CHR ''r'', Lit CHR ''g'', Lit CHR ''b'', Spaces, Lit CHR ''('', Spaces,
      Digits, Spaces, Lit CHR '','', Spaces,
      Digits, Spaces, Lit CHR '','', Spaces,
      Digits, Spaces, Lit CHR '')'']"

text \<open>\<open>FindStringSubmatch\<close>: the whole match followed by the three groups, or nil.\<close>

definition FindStringSubmatch :: "item list \<Rightarrow> string \<Rightarrow> string list option" where
  "FindStringSubmatch re s = matchItems re s [s]"

section \<open>The colour converter (data\_source\_color.go)\<close>

datatype channel = Red | Green | Blue

text \<open>
  One constructor for each failing return of the two converters: the format and length
  errors carry the string they print, \<open>OutOfRange\<close> the component and the value it got,
  the parse errors the error of \<open>strconv.ParseInt\<close> they wrap.
\<close>

datatype color_error =
    InvalidFormat string
  | InvalidLength string
  | HexParseError num_error
  | ChannelParseError channel num_error
  | OutOfRange channel int

text \<open>
  Both converters return Go's pair \<open>(int64, error)\<close>; every failing return gives \<open>0\<close> with
  the error. \<open>regexp.MatchString\<close> fails only on a pattern that does not compile, which
  the constant pattern does, so that return has no branch here.
\<close>

definition hexToDecimal :: "string \<Rightarrow> int \<times> color_error option" where
  "hexToDecimal hex0 =
     (let hex = ToUpper (TrimPrefix hex0 ''#'') in
      if \<not> hexPattern hex then (0, Some (InvalidFormat hex))
      else
        let hex = (if length hex = 3
                   then [hex ! 0, hex ! 0, hex ! 1, hex ! 1, hex ! 2, hex ! 2]
                   else hex)
        in if length hex \<noteq> 6 then (0, Some (InvalidLength hex))
           else (case ParseInt hex 16 of
                   Inl e \<Rightarrow> (0, Some (HexParseError e))
                 | Inr decimal \<Rightarrow> (decimal, None)))"

text \<open>
  The three channels are parsed and checked in turn. The arithmetic of the last line is on
  \<open>int64\<close>; its operands are at most 255 there, so it does not wrap.
\<close>

definition rgbToDecimal :: "string \<Rightarrow> int \<times> color_error option" where
  "rgbToDecimal rgb =
     (case FindStringSubmatch rgbRegex rgb of
        None \<Rightarrow> (0, Some (InvalidFormat rgb))
      | Some matches \<Rightarrow>
          if length matches \<noteq> 4 then (0, Some (InvalidFormat rgb))
          else
            (case ParseInt (matches ! 1) 10 of
               Inl err \<Rightarrow> (0, Some (ChannelParseError Red err))
             | Inr r \<Rightarrow>
                 if r < 0 \<or> r > 255 then (0, Some (OutOfRange Red r))
                 else
                   (case ParseInt (matches ! 2) 10 of
                      Inl err \<Rightarrow> (0, Some (ChannelParseError Green err))
                    | Inr g \<Rightarrow>
                        if g < 0 \<or> g > 255 then (0, Some (OutOfRange Green g))
                        else
                          (case ParseInt (matches ! 3) 10 of
                             Inl err \<Rightarrow> (0, Some (ChannelParseError Blue err))
                           | Inr b \<Rightarrow>
                               if b < 0 \<or> b > 255 then (0, Some (OutOfRange Blue b))
                               else (r * 65536 + g * 256 + b, None)))))"

text \<open>
  \<open>colorDataSource.Read\<close>, from the decoded configuration on. An attribute of type
  \<open>types.String\<close> is null, unknown or a value, and \<open>ValueString\<close> is empty unless it is a
  value. The result is the diagnostic added, or the \<open>dec\<close> attribute written to the state.
\<close>

datatype tf_string = StringNull | StringUnknown | StringValue string

fun IsNull :: "tf_string \<Rightarrow> bool" where
  "IsNull StringNull = True"
| "IsNull _ = False"

fun IsUnknown :: "tf_string \<Rightarrow> bool" where
  "IsUnknown StringUnknown = True"
| "IsUnknown _ = False"

fun ValueString :: "tf_string \<Rightarrow> string" where
  "ValueString (StringValue s) = s"
| "ValueString _ = []"

datatype read_diag =
    MissingColorInput
  | ConflictingColorInput
  | InvalidHexColor color_error
  | InvalidRGBColor color_error
  | InvalidColorRange

definition checkColorRange :: "int \<Rightarrow> read_diag + int" where
  "checkColorRange decimalValue =
     (if decimalValue < 0 \<or> decimalValue > 16777215 then Inl InvalidColorRange
      else Inr decimalValue)"

definition colorRead :: "tf_string \<Rightarrow> tf_string \<Rightarrow> read_diag + int" where
  "colorRead Hex RGB =
     (let hasHex = (\<not> IsNull Hex \<and> \<not> IsUnknown Hex \<and> ValueString Hex \<noteq> []);
          hasRGB = (\<not> IsNull RGB \<and> \<not> IsUnknown RGB \<and> ValueString RGB \<noteq> [])
      in if \<not> hasHex \<and> \<not> hasRGB then Inl MissingColorInput
         else if hasHex \<and> hasRGB then Inl ConflictingColorInput
         else if hasHex then
           (case hexToDecimal (ValueString Hex) of
              (_, Some e) \<Rightarrow> Inl (InvalidHexColor e)
            | (decimalValue, None) \<Rightarrow> checkColorRange decimalValue)
         else
           (case rgbToDecimal (ValueString RGB) of
              (_, Some e) \<Rightarrow> Inl (InvalidRGBColor e)
            | (decimalValue, None) \<Rightarrow> checkColorRange decimalValue))"

section \<open>Composite import IDs\<close>

text \<open>
  An \<open>ImportState\<close> method reads \<open>req.ID\<close> and either adds one error diagnostic and returns,
  or writes attributes to the state. The diagnostics are named by their summaries:
  \<open>InvalidImportID\<close> is "Invalid Import ID", \<open>InvalidImportIDFormat\<close> is "Invalid Import ID
  Format", and \<open>InvalidType\<close> is "Invalid Type" with the tag it prints. The last three are
  those of the role importer: "Missing Import ID", "Discord Client Not Configured" and
  "Cannot Import @everyone Role".
\<close>

datatype import_diag =
    InvalidImportID
  | InvalidImportIDFormat
  | InvalidType string
  | MissingImportID
  | DiscordClientNotConfigured
  | CannotImportEveryoneRole

definition isInvalidImportID :: "import_diag \<Rightarrow> bool" where
  "isInvalidImportID d = (d = InvalidImportID \<or> d = InvalidImportIDFormat)"

subsection \<open>messageResource.ImportState (channel\_id:message\_id)\<close>

record message_state =
  channel_id :: string
  message_id :: string
  id :: string

text \<open>The loop over \<open>i\<close> that appends the two pieces at the first colon and breaks.\<close>

function messageSplitLoop :: "string \<Rightarrow> nat \<Rightarrow> string list \<Rightarrow> string list" where
  "messageSplitLoop importID i splitParts =
     (if i < length importID
      then (if importID ! i = CHR '':''
            then splitParts @ [take i importID, drop (i + 1) importID]
            else messageSplitLoop importID (i + 1) splitParts)
      else splitParts)"
  by pat_completeness auto
termination
  by (relation "measure (\<lambda>(importID, i, splitParts). length importID - i)") auto

declare messageSplitLoop.simps [simp del]

definition messageImportState :: "string \<Rightarrow> import_diag + message_state" where
  "messageImportState importID =
     (if importID = [] then Inl InvalidImportID
      else
        let splitParts = messageSplitLoop importID 0 [] in
        if length splitParts \<noteq> 2 then Inl InvalidImportIDFormat
        else
          let channelID = splitParts ! 0;
              messageID = splitParts ! 1
          in Inr \<lparr>channel_id = channelID, message_id = messageID, id = messageID\<rparr>)"

subsection \<open>emojiResource.ImportState (guild\_id:emoji\_id)\<close>

record emoji_state =
  emoji_guild_id :: string
  emoji_id :: string

definition emojiImportState :: "string \<Rightarrow> import_diag + emoji_state" where
  "emojiImportState importID =
     (if importID = [] then Inl InvalidImportID
      else
        let parts = Split importID CHR '':'' in
        if length parts \<noteq> 2 then Inl InvalidImportIDFormat
        else Inr \<lparr>emoji_guild_id = parts ! 0, emoji_id = parts ! 1\<rparr>)"

subsection \<open>roleMemberResource (guild\_id:role\_id:user\_id)\<close>

record role_member_state =
  rm_guild_id :: string
  rm_role_id :: string
  rm_user_id :: string
  rm_id :: string


definition roleMemberImportState :: "string \<Rightarrow> import_diag + role_member_state" where
  "roleMemberImportState importID =
     (if importID = [] then Inl InvalidImportID
      else
        let parts = Split importID CHR '':'' in
        if length parts \<noteq> 3 then Inl InvalidImportIDFormat
        else Inr \<lparr>rm_guild_id = parts ! 0, rm_role_id = parts ! 1, rm_user_id = parts ! 2,
                  rm_id = importID\<rparr>)"

subsection \<open>roleResource.ImportState (guild\_id:role\_id)\<close>



subsection \<open>channelPermissionResource.ImportState (channel\_id:overwrite\_id:type)\<close>

text \<open>
  The two scans of the method. Each returns the index it found, or \<open>-1\<close>. The backward scan
  takes \<open>i + 1\<close> as its counter, the forward scan \<open>i\<close>.
\<close>

fun lastColonLoop :: "string \<Rightarrow> nat \<Rightarrow> int" where
  "lastColonLoop importID 0 = -1"
| "lastColonLoop importID (Suc i) =
     (if importID ! i = CHR '':'' then int i else lastColonLoop importID i)"

function firstColonLoop :: "string \<Rightarrow> nat \<Rightarrow> int" where
  "firstColonLoop prefix i =
     (if i < length prefix
      then (if prefix ! i = CHR '':'' then int i else firstColonLoop prefix (i + 1))
      else -1)"
  by pat_completeness auto
termination
  by (relation "measure (\<lambda>(prefix, i). length prefix - i)") auto

declare firstColonLoop.simps [simp del]

datatype PermissionOverwriteType = PermissionOverwriteTypeRole | PermissionOverwriteTypeMember

record permission_import =
  pi_channel_id :: string
  pi_overwrite_id :: string
  pi_type_str :: string
  pi_overwrite_type :: PermissionOverwriteType

text \<open>
  The parsing part of the method, up to the validated type tag: what it hands to the
  lookup of the overwrite on the channel that follows.
\<close>

definition channelPermissionImportParse :: "string \<Rightarrow> import_diag + permission_import" where
  "channelPermissionImportParse importID =
     (let lastColon = lastColonLoop importID (length importID) in
      if lastColon = -1 then Inl InvalidImportID
      else
        let prefix = take (nat lastColon) importID;
            typeStr = drop (nat lastColon + 1) importID;
            firstColon = firstColonLoop prefix 0
        in if firstColon = -1 then Inl InvalidImportID
           else
             let channelID = take (nat firstColon) prefix;
                 overwriteID = drop (nat firstColon + 1) prefix
             in if typeStr = ''role''
                then Inr \<lparr>pi_channel_id = channelID, pi_overwrite_id = overwriteID,
                          pi_type_str = typeStr, pi_overwrite_type = PermissionOverwriteTypeRole\<rparr>
                else if typeStr = ''member''
                then Inr \<lparr>pi_channel_id = channelID, pi_overwrite_id = overwriteID,
                          pi_type_str = typeStr, pi_overwrite_type = PermissionOverwriteTypeMember\<rparr>
                else Inl (InvalidType typeStr))"

section \<open>The channel type codec (resource\_channel.go)\<close>

text \<open>
  \<open>discordgo.ChannelType\<close> is an \<open>int\<close>. The constants are those of the discordgo library,
  which follow the numbering of the Discord API; the comments of \<open>channelTypeFromString\<close>
  name 5, 13 and 15 for news, stage and forum.
\<close>

type_synonym ChannelType = int

definition ChannelTypeGuildText :: ChannelType where "ChannelTypeGuildText = 0"
definition ChannelTypeGuildVoice :: ChannelType where "ChannelTypeGuildVoice = 2"
definition ChannelTypeGuildCategory :: ChannelType where "ChannelTypeGuildCategory = 4"
definition ChannelTypeGuildNews :: ChannelType where "ChannelTypeGuildNews = 5"
definition ChannelTypeGuildStageVoice :: ChannelType where "ChannelTypeGuildStageVoice = 13"
definition ChannelTypeGuildDirectory :: ChannelType where "ChannelTypeGuildDirectory = 14"
definition ChannelTypeGuildForum :: ChannelType where "ChannelTypeGuildForum = 15"
definition ChannelTypeGuildMedia :: ChannelType where "ChannelTypeGuildMedia = 16"

datatype channel_type_error = UnsupportedChannelType string

text \<open>The failing return gives the text constant together with the error.\<close>

definition channelTypeFromString :: "string \<Rightarrow> ChannelType \<times> channel_type_error option" where
  "channelTypeFromString typeStr =
     (if typeStr = ''text'' \<or> typeStr = [] then (ChannelTypeGuildText, None)
      else if typeStr = ''voice'' then (ChannelTypeGuildVoice, None)
      else if typeStr = ''category'' then (ChannelTypeGuildCategory, None)
      else if typeStr = ''media'' then (ChannelTypeGuildMedia, None)
      else if typeStr = ''directory'' then (ChannelTypeGuildDirectory, None)
      else (ChannelTypeGuildText, Some (UnsupportedChannelType typeStr)))"

definition channelTypeToString :: "ChannelType \<Rightarrow> string" where
  "channelTypeToString channelType =
     (if channelType = ChannelTypeGuildText then ''text''
      else if channelType = ChannelTypeGuildVoice then ''voice''
      else if channelType = ChannelTypeGuildCategory then ''category''
      else if channelType = ChannelTypeGuildNews then ''news''
      else if channelType = ChannelTypeGuildStageVoice then ''stage''
      else if channelType = ChannelTypeGuildForum then ''forum''
      else if channelType = ChannelTypeGuildMedia then ''media''
      else if channelType = ChannelTypeGuildDirectory then ''directory''
      else ''text'')"

section \<open>Notions used in the statements\<close>

text \<open>
  The value of a digit string in positional notation, with the digit of each character
  read from a table, and the valid characters of a hex colour in either letter case.
\<close>

definition digitTable :: "(char \<times> int) list" where
  "digitTable =
     [(CHR ''0'', 0), (CHR ''1'', 1), (CHR ''2'', 2), (CHR ''3'', 3), (CHR ''4'', 4),
      (CHR ''5'', 5), (CHR ''6'', 6), (CHR ''7'', 7), (CHR ''8'', 8), (CHR ''9'', 9),
      (CHR ''a'', 10), (CHR ''b'', 11), (CHR ''c'', 12), (CHR ''d'', 13), (CHR ''e'', 14),
      (CHR ''f'', 15),
      (CHR ''A'', 10), (CHR ''B'', 11), (CHR ''C'', 12), (CHR ''D'', 13), (CHR ''E'', 14),
      (CHR ''F'', 15)]"

definition digitValue :: "char \<Rightarrow> int" where
  "digitValue c = (case map_of digitTable c of Some v \<Rightarrow> v | None \<Rightarrow> 0)"

definition isHexDigit :: "char \<Rightarrow> bool" where
  "isHexDigit c = (c \<in> set ''0123456789abcdefABCDEF'')"

fun positional :: "int \<Rightarrow> int list \<Rightarrow> int" where
  "positional b [] = 0"
| "positional b (d # ds) = d * b ^ length ds + positional b ds"

definition hexValue :: "string \<Rightarrow> int" where
  "hexValue s = positional 16 (map digitValue s)"

definition decValue :: "string \<Rightarrow> int" where
  "decValue s = positional 10 (map digitValue s)"

text \<open>The long form of a three-digit colour: every character doubled.\<close>

definition expandShort :: "string \<Rightarrow> string" where
  "expandShort ds = (if length ds = 3 then concat (map (\<lambda>c. [c, c]) ds) else ds)"

text \<open>
  The strings the pattern of \<open>rgbToDecimal\<close> describes, with the three digit groups:
  \<open>rgb\<close>, a parenthesis, three non-empty digit strings separated by commas, a closing
  parenthesis, and white space allowed between any two of these tokens (none before
  \<open>rgb\<close>, none after the closing parenthesis).
\<close>

definition rgbGrammar :: "string \<Rightarrow> string \<Rightarrow> string \<Rightarrow> string \<Rightarrow> bool" where
  "rgbGrammar s r g b =
     (\<exists>w1 w2 w3 w4 w5 w6 w7.
        s = ''rgb'' @ w1 @ ''('' @ w2 @ r @ w3 @ '','' @ w4 @ g @ w5 @ '','' @ w6 @ b @ w7 @ '')''
        \<and> list_all isSpace w1 \<and> list_all isSpace w2 \<and> list_all isSpace w3
        \<and> list_all isSpace w4 \<and> list_all isSpace w5 \<and> list_all isSpace w6
        \<and> list_all isSpace w7
        \<and> list_all isDigit r \<and> r \<noteq> [] \<and> list_all isDigit g \<and> g \<noteq> []
        \<and> list_all isDigit b \<and> b \<noteq> [])"

text \<open>
  What \<open>rgbToDecimal\<close> does with one captured group: the parse, then the comparison with 0
  and 255. The function repeats it for red, green and blue.
\<close>

definition parseChannel :: "channel \<Rightarrow> string \<Rightarrow> color_error + int" where
  "parseChannel ch m =
     (case ParseInt m 10 of
        Inl e \<Rightarrow> Inl (ChannelParseError ch e)
      | Inr v \<Rightarrow> if v < 0 \<or> v > 255 then Inl (OutOfRange ch v) else Inr v)"

section \<open>Properties of the library functions\<close>

subsection \<open>Digits and the integer parser\<close>

lemma hex_table:
  "list_all (\<lambda>c. isUpperHex (toUpperByte c) \<and> digitOf (toUpperByte c) = Some (digitValue c)
       \<and> 0 \<le> digitValue c \<and> digitValue c < 16 \<and> digitValue (toUpperByte c) = digitValue c)
     ''0123456789abcdefABCDEF''"
  by code_simp

lemma upper_table:
  "list_all (\<lambda>c. toUpperByte c = c \<and> digitOf c = Some (digitValue c)
       \<and> 0 \<le> digitValue c \<and> digitValue c < 16 \<and> isHexDigit c)
     ''0123456789ABCDEF''"
  by code_simp

lemma dec_table:
  "list_all (\<lambda>c. digitOf c = Some (digitValue c) \<and> 0 \<le> digitValue c \<and> digitValue c < 10)
     ''0123456789''"
  by code_simp

lemma isHexDigit_facts:
  assumes "isHexDigit c"
  shows "isUpperHex (toUpperByte c)" "digitOf (toUpperByte c) = Some (digitValue c)"
    "0 \<le> digitValue c" "digitValue c < 16" "digitValue (toUpperByte c) = digitValue c"
  using assms hex_table unfolding isHexDigit_def list_all_iff by blast+

lemma isUpperHex_facts:
  assumes "isUpperHex c"
  shows "toUpperByte c = c" "digitOf c = Some (digitValue c)"
    "0 \<le> digitValue c" "digitValue c < 16" "isHexDigit c"
  using assms upper_table unfolding isUpperHex_def list_all_iff by blast+

lemma isDigit_facts:
  assumes "isDigit c"
  shows "digitOf c = Some (digitValue c)" "0 \<le> digitValue c" "digitValue c < 10"
  using assms dec_table unfolding isDigit_def list_all_iff by blast+

lemma positional_bounds:
  assumes "\<forall>d\<in>set ds. 0 \<le> d \<and> d < b" "0 < b"
  shows "0 \<le> positional b ds \<and> positional b ds < b ^ length ds"
  using assms
proof (induction ds)
  case Nil
  then show ?case by simp
next
  case (Cons d ds)
  then have ih: "0 \<le> positional b ds" "positional b ds < b ^ length ds" by simp_all
  from Cons.prems have d: "0 \<le> d" "d + 1 \<le> b" by simp_all
  have p: "0 < b ^ length ds" using Cons.prems(2) by simp
  have "d * b ^ length ds + positional b ds < (d + 1) * b ^ length ds"
    using ih by (simp add: algebra_simps)
  also have "\<dots> \<le> b * b ^ length ds"
    using d p by (intro mult_right_mono) simp_all
  finally show ?case using d ih p by simp
qed

lemma parseUintLoop_value:
  assumes "\<forall>c\<in>set cs. digitOf c = Some (f c) \<and> 0 \<le> f c \<and> f c < base"
    and "2 \<le> base" and "base \<le> 36" and "0 \<le> n" and "n \<le> maxUint64"
  shows "parseUintLoop base n cs =
           (if n * base ^ length cs + positional base (map f cs) \<le> maxUint64
            then Inr (n * base ^ length cs + positional base (map f cs))
            else Inl ErrRange)"
  using assms
proof (induction cs arbitrary: n)
  case Nil
  then show ?case by simp
next
  case (Cons c cs)
  let ?d = "f c"
  let ?k = "length cs"
  let ?rest = "positional base (map f cs)"
  from Cons.prems have dc: "digitOf c = Some ?d" "0 \<le> ?d" "?d < base"
    and rest: "\<forall>c\<in>set cs. digitOf c = Some (f c) \<and> 0 \<le> f c \<and> f c < base" by simp_all
  have b0: "0 < base" using Cons.prems(2) by simp
  have pk: "1 \<le> base ^ ?k" using b0 by simp
  have r0: "0 \<le> ?rest"
    using positional_bounds[of "map f cs" base] rest b0 by auto
  have total: "n * base ^ length (c # cs) + positional base (map f (c # cs))
                 = (n * base + ?d) * base ^ ?k + ?rest"
    by (simp add: algebra_simps)
  have nb0: "0 \<le> n * base + ?d" using Cons.prems(4) b0 dc by simp
  have ge: "n * base + ?d \<le> (n * base + ?d) * base ^ ?k + ?rest"
  proof -
    have "(n * base + ?d) * 1 \<le> (n * base + ?d) * base ^ ?k"
      using nb0 pk by (intro mult_left_mono) simp_all
    then show ?thesis using r0 by simp
  qed
  show ?case
  proof (cases "n \<ge> maxUint64 div base + 1")
    case True
    have "maxUint64 < (maxUint64 div base + 1) * base"
      using b0 by (metis add.commute div_mult_mod_eq add_less_cancel_left distrib_right mult_1 pos_mod_bound)
    also have "\<dots> \<le> n * base" using True b0 by (intro mult_right_mono) simp_all
    finally have "maxUint64 < n * base + ?d" using dc by simp
    then have "\<not> (n * base + ?d) * base ^ ?k + ?rest \<le> maxUint64" using ge by linarith
    then show ?thesis using True dc total by simp
  next
    case False
    then have "n \<le> maxUint64 div base" by simp
    then have "n * base \<le> (maxUint64 div base) * base" using b0 by (intro mult_right_mono) simp_all
    also have "\<dots> \<le> maxUint64" using b0
      by (metis div_mult_mod_eq add_increasing2 mult.commute order_refl pos_mod_sign)
    finally have nb: "n * base \<le> maxUint64" .
    show ?thesis
    proof (cases "n * base + ?d \<le> maxUint64")
      case True
      then have m: "(n * base + ?d) mod 2 ^ 64 = n * base + ?d"
        using nb0 by (simp add: maxUint64_def)
      have "parseUintLoop base n (c # cs) = parseUintLoop base (n * base + ?d) cs"
        using False dc m True by (simp add: Let_def)
      also have "\<dots> = (if (n * base + ?d) * base ^ ?k + ?rest \<le> maxUint64
            then Inr ((n * base + ?d) * base ^ ?k + ?rest) else Inl ErrRange)"
        using Cons.IH[OF rest Cons.prems(2) Cons.prems(3) nb0 True] .
      finally show ?thesis using total by simp
    next
      case over: False
      then have big: "2 ^ 64 \<le> n * base + ?d" by (simp add: maxUint64_def)
      have small: "n * base + ?d < 2 * 2 ^ 64"
        using nb dc Cons.prems(3) by (simp add: maxUint64_def)
      have "(n * base + ?d) mod 2 ^ 64 = (n * base + ?d - 2 ^ 64) mod 2 ^ 64"
        by (simp add: minus_mod_self2)
      also have "\<dots> = n * base + ?d - 2 ^ 64"
        using big small by (intro mod_pos_pos_trivial) simp_all
      finally have m: "(n * base + ?d) mod 2 ^ 64 = n * base + ?d - 2 ^ 64" .
      have "(n * base + ?d) mod 2 ^ 64 < n * base"
        using m dc Cons.prems(3) by simp
      then have "parseUintLoop base n (c # cs) = Inl ErrRange"
        using False dc by (simp add: Let_def)
      moreover have "\<not> (n * base + ?d) * base ^ ?k + ?rest \<le> maxUint64"
        using over ge by linarith
      ultimately show ?thesis using total by simp
    qed
  qed
qed

lemma digitOf_signs: "digitOf CHR ''+'' = None" "digitOf CHR ''-'' = None"
  by code_simp+

lemma ParseInt_digits:
  assumes "\<forall>c\<in>set s. digitOf c = Some (f c) \<and> 0 \<le> f c \<and> f c < base"
    and "s \<noteq> []" and "2 \<le> base" and "base \<le> 36"
  shows "ParseInt s base =
           (if positional base (map f s) < 2 ^ 63 then Inr (positional base (map f s))
            else Inl ErrRange)"
proof -
  from assms(1,2) have "digitOf (hd s) \<noteq> None" by (cases s) auto
  then have nosign: "hd s \<noteq> CHR ''+''" "hd s \<noteq> CHR ''-''"
    using digitOf_signs by auto
  have loop: "parseUintLoop base 0 s =
           (if positional base (map f s) \<le> maxUint64 then Inr (positional base (map f s))
            else Inl ErrRange)"
    using parseUintLoop_value[OF assms(1) assms(3) assms(4), of 0]
    by (simp add: maxUint64_def)
  show ?thesis
    using assms(2) nosign loop
    by (simp add: ParseInt_def ParseUint_def Let_def maxUint64_def)
qed

section \<open>Properties of the colour converter\<close>

subsection \<open>Hex colours\<close>

lemma TrimPrefix_hash_Cons: "TrimPrefix (CHR ''#'' # ds) ''#'' = ds"
  by (simp add: TrimPrefix_def HasPrefix_def)

lemma TrimPrefix_hash_none:
  assumes "ds = [] \<or> hd ds \<noteq> CHR ''#''"
  shows "TrimPrefix ds ''#'' = ds"
  using assms by (cases ds) (auto simp: TrimPrefix_def HasPrefix_def)

lemma not_isHexDigit_hash: "\<not> isHexDigit CHR ''#''"
  by (simp add: isHexDigit_def)

lemma TrimPrefix_hexdigits:
  assumes "list_all isHexDigit ds"
  shows "TrimPrefix ds ''#'' = ds"
proof (rule TrimPrefix_hash_none)
  show "ds = [] \<or> hd ds \<noteq> CHR ''#''"
    using assms not_isHexDigit_hash by (cases ds) auto
qed

lemma length3E:
  assumes "length xs = 3"
  obtains a b c where "xs = [a, b, c]"
  using assms by (auto simp: numeral_3_eq_3 length_Suc_conv)

lemma ToUpper_hexdigits:
  assumes "list_all isHexDigit ds"
  shows "list_all isUpperHex (ToUpper ds)" "length (ToUpper ds) = length ds"
    "map digitValue (ToUpper ds) = map digitValue ds"
  using assms by (auto simp: ToUpper_def list_all_iff isHexDigit_facts)

lemma upperhex_six:
  assumes "list_all isUpperHex h" and "length h = 6"
  shows "ParseInt h 16 = Inr (hexValue h)" and "0 \<le> hexValue h" and "hexValue h \<le> 16777215"
proof -
  have digs: "\<forall>c\<in>set h. digitOf c = Some (digitValue c) \<and> 0 \<le> digitValue c \<and> digitValue c < 16"
    using assms(1) by (auto simp: list_all_iff isUpperHex_facts)
  have ne: "h \<noteq> []" using assms(2) by auto
  have "0 \<le> positional 16 (map digitValue h) \<and>
        positional 16 (map digitValue h) < 16 ^ length (map digitValue h)"
    by (rule positional_bounds) (use digs in auto)
  then have b: "0 \<le> hexValue h" "hexValue h < 16777216"
    using assms(2) by (simp_all add: hexValue_def)
  show "0 \<le> hexValue h" "hexValue h \<le> 16777215" using b by simp_all
  have "ParseInt h 16 = (if positional 16 (map digitValue h) < 2 ^ 63
          then Inr (positional 16 (map digitValue h)) else Inl ErrRange)"
    by (rule ParseInt_digits[OF digs ne]) simp_all
  then show "ParseInt h 16 = Inr (hexValue h)"
    using b by (simp add: hexValue_def)
qed

lemma expandShort_props:
  assumes "list_all isHexDigit ds" and "length ds = 3 \<or> length ds = 6"
  shows "list_all isHexDigit (expandShort ds)" and "length (expandShort ds) = 6"
  using assms by (auto simp: expandShort_def elim!: length3E)

lemma hexToDecimal_core:
  assumes hex: "list_all isHexDigit ds" and len: "length ds = 3 \<or> length ds = 6"
    and trim: "TrimPrefix s ''#'' = ds"
  shows "hexToDecimal s = (hexValue (expandShort ds), None)"
proof -
  let ?u = "ToUpper ds"
  let ?h = "if length ?u = 3 then [?u ! 0, ?u ! 0, ?u ! 1, ?u ! 1, ?u ! 2, ?u ! 2] else ?u"
  have u: "list_all isUpperHex ?u" "length ?u = length ds"
    using ToUpper_hexdigits[OF hex] by simp_all
  have pat: "hexPattern ?u"
    using u len by (auto simp: hexPattern_def)
  have h_eq: "?h = ToUpper (expandShort ds)"
    using len by (auto simp: expandShort_def ToUpper_def elim!: length3E)
  have e: "list_all isHexDigit (expandShort ds)" "length (expandShort ds) = 6"
    using expandShort_props[OF hex len] by simp_all
  have h6: "list_all isUpperHex ?h" "length ?h = 6"
    unfolding h_eq using ToUpper_hexdigits[OF e(1)] e(2) by simp_all
  have val: "hexValue ?h = hexValue (expandShort ds)"
    unfolding h_eq using ToUpper_hexdigits(3)[OF e(1)] by (simp add: hexValue_def)
  have "hexToDecimal s = (case ParseInt ?h 16 of
           Inl e \<Rightarrow> (0, Some (HexParseError e)) | Inr decimal \<Rightarrow> (decimal, None))"
    using pat h6(2) by (simp add: hexToDecimal_def trim Let_def)
  also have "\<dots> = (hexValue ?h, None)"
    using upperhex_six(1)[OF h6] by simp
  finally show ?thesis using val by simp
qed

lemma hexToDecimal_cases:
  fixes s :: string
  defines "n \<equiv> ToUpper (TrimPrefix s ''#'')"
  shows "hexToDecimal s =
           (if \<not> hexPattern n then (0, Some (InvalidFormat n))
            else if length n = 3 \<or> length n = 6 then (hexValue (expandShort n), None)
            else (0, Some (InvalidLength n)))"
proof (cases "hexPattern n")
  case False
  then show ?thesis by (simp add: hexToDecimal_def n_def Let_def)
next
  case True
  then have up: "list_all isUpperHex n" by (simp add: hexPattern_def)
  show ?thesis
  proof (cases "length n = 3 \<or> length n = 6")
    case False
    then show ?thesis using True by (simp add: hexToDecimal_def n_def[symmetric] Let_def)
  next
    case len: True
    let ?h = "if length n = 3 then [n ! 0, n ! 0, n ! 1, n ! 1, n ! 2, n ! 2] else n"
    have h_eq: "?h = expandShort n"
      using len by (auto simp: expandShort_def elim!: length3E)
    have h6: "list_all isUpperHex ?h" "length ?h = 6"
      using len up by (auto elim!: length3E)
    have "hexToDecimal s = (case ParseInt ?h 16 of
           Inl e \<Rightarrow> (0, Some (HexParseError e)) | Inr decimal \<Rightarrow> (decimal, None))"
      using True h6(2) by (simp add: hexToDecimal_def n_def[symmetric] Let_def)
    also have "\<dots> = (hexValue ?h, None)"
      using upperhex_six(1)[OF h6] by simp
    finally show ?thesis using True len h_eq by simp
  qed
qed

lemma hexToDecimal_range:
  assumes "hexToDecimal s = (v, None)"
  shows "0 \<le> v \<and> v \<le> 16777215"
proof -
  let ?n = "ToUpper (TrimPrefix s ''#'')"
  from assms have pat: "hexPattern ?n" and len: "length ?n = 3 \<or> length ?n = 6"
    and v: "v = hexValue (expandShort ?n)"
    by (auto simp: hexToDecimal_cases split: if_splits)
  let ?h = "expandShort ?n"
  have "list_all isUpperHex ?h" "length ?h = 6"
    using pat len by (auto simp: hexPattern_def expandShort_def elim!: length3E)
  from upperhex_six(2,3)[OF this] v show ?thesis by simp
qed

lemma hexPattern_iff: "hexPattern n \<longleftrightarrow> n \<noteq> [] \<and> set n \<subseteq> set ''0123456789ABCDEF''"
  unfolding hexPattern_def list_all_iff subset_eq isUpperHex_def [abs_def] by (rule refl)

subsection \<open>RGB colours\<close>

lemma dropWhile_prefix:
  assumes "list_all P w" and "rest = [] \<or> \<not> P (hd rest)"
  shows "dropWhile P (w @ rest) = rest"
  using assms by (induction w) (auto simp: dropWhile_eq_self_iff)

lemma takeWhile_prefix:
  assumes "list_all P w" and "rest = [] \<or> \<not> P (hd rest)"
  shows "takeWhile P (w @ rest) = w"
  using assms by (induction w) (auto simp: takeWhile_eq_Nil_iff)

lemma class_facts:
  "\<not> isSpace CHR ''(''" "\<not> isSpace CHR '',''" "\<not> isSpace CHR '')''"
  "\<not> isDigit CHR ''(''" "\<not> isDigit CHR '',''" "\<not> isDigit CHR '')''"
  "isDigit c \<Longrightarrow> \<not> isSpace c" "isSpace c \<Longrightarrow> \<not> isDigit c"
  by (auto simp: isSpace_def isDigit_def)

lemma matchItems_Lit:
  "matchItems (Lit c # its) (c # s) caps = matchItems its s caps"
  by simp

lemma matchItems_Spaces:
  assumes "list_all isSpace w" and "rest = [] \<or> \<not> isSpace (hd rest)"
  shows "matchItems (Spaces # its) (w @ rest) caps = matchItems its rest caps"
  using dropWhile_prefix[OF assms] by simp

lemma matchItems_Digits:
  assumes "list_all isDigit r" and "r \<noteq> []" and "rest = [] \<or> \<not> isDigit (hd rest)"
  shows "matchItems (Digits # its) (r @ rest) caps = matchItems its rest (caps @ [r])"
  using dropWhile_prefix[OF assms(1,3)] takeWhile_prefix[OF assms(1,3)] assms(2) by simp

lemma hd_spaces_then:
  assumes "list_all isSpace w" and "\<not> isDigit c"
  shows "\<not> isDigit (hd (w @ c # t))"
  using assms by (cases w) (auto simp: class_facts)

lemma hd_digits:
  assumes "list_all isDigit r" and "r \<noteq> []"
  shows "\<not> isSpace (hd (r @ t))"
  using assms by (cases r) (auto simp: class_facts)

lemma rgb_match_complete:
  assumes "rgbGrammar s r g b"
  shows "FindStringSubmatch rgbRegex s = Some [s, r, g, b]"
proof -
  from assms obtain w1 w2 w3 w4 w5 w6 w7 where
    s: "s = ''rgb'' @ w1 @ ''('' @ w2 @ r @ w3 @ '','' @ w4 @ g @ w5 @ '','' @ w6 @ b @ w7 @ '')''"
    and w: "list_all isSpace w1" "list_all isSpace w2" "list_all isSpace w3"
      "list_all isSpace w4" "list_all isSpace w5" "list_all isSpace w6" "list_all isSpace w7"
    and d: "list_all isDigit r" "r \<noteq> []" "list_all isDigit g" "g \<noteq> []"
      "list_all isDigit b" "b \<noteq> []"
    unfolding rgbGrammar_def by blast
  define t7 where "t7 = CHR '')'' # []"
  define t6 where "t6 = b @ w7 @ t7"
  define t5 where "t5 = CHR '','' # w6 @ t6"
  define t4 where "t4 = g @ w5 @ t5"
  define t3 where "t3 = CHR '','' # w4 @ t4"
  define t2 where "t2 = r @ w3 @ t3"
  define t1 where "t1 = CHR ''('' # w2 @ t2"
  have s1: "s = CHR ''r'' # CHR ''g'' # CHR ''b'' # w1 @ t1"
    by (simp add: s t1_def t2_def t3_def t4_def t5_def t6_def t7_def)
  have n7: "\<not> isSpace (hd t7)" "\<not> isDigit (hd (w7 @ t7))"
    using hd_spaces_then[OF w(7), of "CHR '')''"] by (simp_all add: t7_def class_facts)
  have n6: "\<not> isSpace (hd t6)" unfolding t6_def using hd_digits[OF d(5,6)] by simp
  have n5: "\<not> isSpace (hd t5)" "\<not> isDigit (hd (w5 @ t5))"
    using hd_spaces_then[OF w(5), of "CHR '',''"] by (simp_all add: t5_def class_facts)
  have n4: "\<not> isSpace (hd t4)" unfolding t4_def using hd_digits[OF d(3,4)] by simp
  have n3: "\<not> isSpace (hd t3)" "\<not> isDigit (hd (w3 @ t3))"
    using hd_spaces_then[OF w(3), of "CHR '',''"] by (simp_all add: t3_def class_facts)
  have n2: "\<not> isSpace (hd t2)" unfolding t2_def using hd_digits[OF d(1,2)] by simp
  have n1: "\<not> isSpace (hd t1)" by (simp add: t1_def class_facts)
  have "matchItems rgbRegex s [s] =
        matchItems (drop 4 rgbRegex) t1 [s]"
    unfolding s1 by (simp del: matchItems.simps add: rgbRegex_def matchItems_Lit matchItems_Spaces[OF w(1)] n1)
  also have "\<dots> = matchItems (drop 6 rgbRegex) t2 [s]"
    unfolding t1_def by (simp del: matchItems.simps add: rgbRegex_def matchItems_Lit matchItems_Spaces[OF w(2)] n2)
  also have "\<dots> = matchItems (drop 8 rgbRegex) t3 [s, r]"
    unfolding t2_def
    by (simp del: matchItems.simps add: rgbRegex_def matchItems_Lit matchItems_Digits[OF d(1,2)] n3 matchItems_Spaces[OF w(3)])
  also have "\<dots> = matchItems (drop 10 rgbRegex) t4 [s, r]"
    unfolding t3_def by (simp del: matchItems.simps add: rgbRegex_def matchItems_Lit matchItems_Spaces[OF w(4)] n4)
  also have "\<dots> = matchItems (drop 12 rgbRegex) t5 [s, r, g]"
    unfolding t4_def
    by (simp del: matchItems.simps add: rgbRegex_def matchItems_Lit matchItems_Digits[OF d(3,4)] n5 matchItems_Spaces[OF w(5)])
  also have "\<dots> = matchItems (drop 14 rgbRegex) t6 [s, r, g]"
    unfolding t5_def by (simp del: matchItems.simps add: rgbRegex_def matchItems_Lit matchItems_Spaces[OF w(6)] n6)
  also have "\<dots> = matchItems (drop 16 rgbRegex) t7 [s, r, g, b]"
    unfolding t6_def
    by (simp del: matchItems.simps add: rgbRegex_def matchItems_Lit matchItems_Digits[OF d(5,6)] n7 matchItems_Spaces[OF w(7)])
  also have "\<dots> = Some [s, r, g, b]"
    by (simp add: rgbRegex_def t7_def)
  finally show ?thesis by (simp add: FindStringSubmatch_def)
qed


lemma matchItems_LitD:
  assumes "matchItems (Lit c # its) s caps = Some m"
  obtains s' where "s = c # s'" and "matchItems its s' caps = Some m"
  using assms by (cases s) (auto split: if_splits)

lemma matchItems_SpacesD:
  assumes "matchItems (Spaces # its) s caps = Some m"
  obtains w s' where "s = w @ s'" and "list_all isSpace w" and "matchItems its s' caps = Some m"
proof
  show "s = takeWhile isSpace s @ dropWhile isSpace s" by simp
  show "list_all isSpace (takeWhile isSpace s)"
    by (auto simp: list_all_iff dest: set_takeWhileD)
  show "matchItems its (dropWhile isSpace s) caps = Some m" using assms by simp
qed

lemma matchItems_DigitsD:
  assumes "matchItems (Digits # its) s caps = Some m"
  obtains r s' where "s = r @ s'" and "list_all isDigit r" and "r \<noteq> []"
    and "matchItems its s' (caps @ [r]) = Some m"
proof
  show "s = takeWhile isDigit s @ dropWhile isDigit s" by simp
  show "list_all isDigit (takeWhile isDigit s)"
    by (auto simp: list_all_iff dest: set_takeWhileD)
  show "takeWhile isDigit s \<noteq> []" using assms by (auto split: if_splits)
  show "matchItems its (dropWhile isDigit s) (caps @ [takeWhile isDigit s]) = Some m"
    using assms by (auto split: if_splits)
qed

lemma matchItems_NilD:
  assumes "matchItems [] s caps = Some m"
  shows "s = []" and "m = caps"
  using assms by (auto split: if_splits)

lemma rgb_match_sound:
  assumes "FindStringSubmatch rgbRegex s = Some m"
  shows "\<exists>r g b. rgbGrammar s r g b \<and> m = [s, r, g, b]"
proof -
  from assms have m0: "matchItems rgbRegex s [s] = Some m"
    by (simp add: FindStringSubmatch_def)
  from m0 obtain a1 where e1: "s = CHR ''r'' # a1"
    and m1: "matchItems (drop 1 rgbRegex) a1 [s] = Some m"
    unfolding rgbRegex_def by (elim matchItems_LitD) simp
  from m1 obtain a2 where e2: "a1 = CHR ''g'' # a2"
    and m2: "matchItems (drop 2 rgbRegex) a2 [s] = Some m"
    unfolding rgbRegex_def by (simp del: matchItems.simps) (elim matchItems_LitD, simp)
  from m2 obtain a3 where e3: "a2 = CHR ''b'' # a3"
    and m3: "matchItems (drop 3 rgbRegex) a3 [s] = Some m"
    unfolding rgbRegex_def by (simp del: matchItems.simps) (elim matchItems_LitD, simp)
  from m3 obtain w1 a4 where e4: "a3 = w1 @ a4" and w1: "list_all isSpace w1"
    and m4: "matchItems (drop 4 rgbRegex) a4 [s] = Some m"
    unfolding rgbRegex_def by (simp del: matchItems.simps) (elim matchItems_SpacesD, simp)
  from m4 obtain a5 where e5: "a4 = CHR ''('' # a5"
    and m5: "matchItems (drop 5 rgbRegex) a5 [s] = Some m"
    unfolding rgbRegex_def by (simp del: matchItems.simps) (elim matchItems_LitD, simp)
  from m5 obtain w2 a6 where e6: "a5 = w2 @ a6" and w2: "list_all isSpace w2"
    and m6: "matchItems (drop 6 rgbRegex) a6 [s] = Some m"
    unfolding rgbRegex_def by (simp del: matchItems.simps) (elim matchItems_SpacesD, simp)
  from m6 obtain r a7 where e7: "a6 = r @ a7" and r: "list_all isDigit r" "r \<noteq> []"
    and m7: "matchItems (drop 7 rgbRegex) a7 [s, r] = Some m"
    unfolding rgbRegex_def by (simp del: matchItems.simps) (elim matchItems_DigitsD, simp)
  from m7 obtain w3 a8 where e8: "a7 = w3 @ a8" and w3: "list_all isSpace w3"
    and m8: "matchItems (drop 8 rgbRegex) a8 [s, r] = Some m"
    unfolding rgbRegex_def by (simp del: matchItems.simps) (elim matchItems_SpacesD, simp)
  from m8 obtain a9 where e9: "a8 = CHR '','' # a9"
    and m9: "matchItems (drop 9 rgbRegex) a9 [s, r] = Some m"
    unfolding rgbRegex_def by (simp del: matchItems.simps) (elim matchItems_LitD, simp)
  from m9 obtain w4 a10 where e10: "a9 = w4 @ a10" and w4: "list_all isSpace w4"
    and m10: "matchItems (drop 10 rgbRegex) a10 [s, r] = Some m"
    unfolding rgbRegex_def by (simp del: matchItems.simps) (elim matchItems_SpacesD, simp)
  from m10 obtain g a11 where e11: "a10 = g @ a11" and g: "list_all isDigit g" "g \<noteq> []"
    and m11: "matchItems (drop 11 rgbRegex) a11 [s, r, g] = Some m"
    unfolding rgbRegex_def by (simp del: matchItems.simps) (elim matchItems_DigitsD, simp)
  from m11 obtain w5 a12 where e12: "a11 = w5 @ a12" and w5: "list_all isSpace w5"
    and m12: "matchItems (drop 12 rgbRegex) a12 [s, r, g] = Some m"
    unfolding rgbRegex_def by (simp del: matchItems.simps) (elim matchItems_SpacesD, simp)
  from m12 obtain a13 where e13: "a12 = CHR '','' # a13"
    and m13: "matchItems (drop 13 rgbRegex) a13 [s, r, g] = Some m"
    unfolding rgbRegex_def by (simp del: matchItems.simps) (elim matchItems_LitD, simp)
  from m13 obtain w6 a14 where e14: "a13 = w6 @ a14" and w6: "list_all isSpace w6"
    and m14: "matchItems (drop 14 rgbRegex) a14 [s, r, g] = Some m"
    unfolding rgbRegex_def by (simp del: matchItems.simps) (elim matchItems_SpacesD, simp)
  from m14 obtain b a15 where e15: "a14 = b @ a15" and b: "list_all isDigit b" "b \<noteq> []"
    and m15: "matchItems (drop 15 rgbRegex) a15 [s, r, g, b] = Some m"
    unfolding rgbRegex_def by (simp del: matchItems.simps) (elim matchItems_DigitsD, simp)
  from m15 obtain w7 a16 where e16: "a15 = w7 @ a16" and w7: "list_all isSpace w7"
    and m16: "matchItems (drop 16 rgbRegex) a16 [s, r, g, b] = Some m"
    unfolding rgbRegex_def by (simp del: matchItems.simps) (elim matchItems_SpacesD, simp)
  from m16 obtain a17 where e17: "a16 = CHR '')'' # a17"
    and m17: "matchItems [] a17 [s, r, g, b] = Some m"
    unfolding rgbRegex_def by (simp del: matchItems.simps) (elim matchItems_LitD, simp)
  from matchItems_NilD[OF m17] have e18: "a17 = []" and m: "m = [s, r, g, b]" by simp_all
  have "s = ''rgb'' @ w1 @ ''('' @ w2 @ r @ w3 @ '','' @ w4 @ g @ w5 @ '','' @ w6 @ b @ w7 @ '')''"
    by (simp add: e1 e2 e3 e4 e5 e6 e7 e8 e9 e10 e11 e12 e13 e14 e15 e16 e17 e18)
  then have "rgbGrammar s r g b"
    unfolding rgbGrammar_def using w1 w2 w3 w4 w5 w6 w7 r g b by blast
  then show ?thesis using m by blast
qed

lemma decValue_nonneg:
  assumes "list_all isDigit m"
  shows "0 \<le> decValue m"
proof -
  have "0 \<le> positional 10 (map digitValue m) \<and>
        positional 10 (map digitValue m) < 10 ^ length (map digitValue m)"
    by (rule positional_bounds) (use assms in \<open>auto simp: list_all_iff isDigit_facts\<close>)
  then show ?thesis by (simp add: decValue_def)
qed

lemma parseChannel_digits:
  assumes "list_all isDigit m" and "m \<noteq> []"
  shows "parseChannel ch m =
           (if 2 ^ 63 \<le> decValue m then Inl (ChannelParseError ch ErrRange)
            else if 255 < decValue m then Inl (OutOfRange ch (decValue m))
            else Inr (decValue m))"
proof -
  have digs: "\<forall>c\<in>set m. digitOf c = Some (digitValue c) \<and> 0 \<le> digitValue c \<and> digitValue c < 10"
    using assms(1) by (auto simp: list_all_iff isDigit_facts)
  have "ParseInt m 10 = (if positional 10 (map digitValue m) < 2 ^ 63
          then Inr (positional 10 (map digitValue m)) else Inl ErrRange)"
    by (rule ParseInt_digits[OF digs assms(2)]) simp_all
  then show ?thesis
    using decValue_nonneg[OF assms(1)] by (simp add: parseChannel_def decValue_def)
qed

lemma parseChannel_Inr_range:
  assumes "parseChannel ch m = Inr v"
  shows "0 \<le> v \<and> v \<le> 255"
  using assms by (auto simp: parseChannel_def split: sum.splits if_splits)

lemma rgbToDecimal_channels:
  "rgbToDecimal rgb =
     (case FindStringSubmatch rgbRegex rgb of
        None \<Rightarrow> (0, Some (InvalidFormat rgb))
      | Some matches \<Rightarrow>
          if length matches \<noteq> 4 then (0, Some (InvalidFormat rgb))
          else
            (case parseChannel Red (matches ! 1) of
               Inl e \<Rightarrow> (0, Some e)
             | Inr r \<Rightarrow>
                 (case parseChannel Green (matches ! 2) of
                    Inl e \<Rightarrow> (0, Some e)
                  | Inr g \<Rightarrow>
                      (case parseChannel Blue (matches ! 3) of
                         Inl e \<Rightarrow> (0, Some e)
                       | Inr b \<Rightarrow> (r * 65536 + g * 256 + b, None)))))"
  by (simp add: rgbToDecimal_def parseChannel_def split: option.splits sum.splits)

lemma rgbToDecimal_grammar:
  assumes "rgbGrammar s r g b"
  shows "rgbToDecimal s =
           (case parseChannel Red r of
              Inl e \<Rightarrow> (0, Some e)
            | Inr rv \<Rightarrow>
                (case parseChannel Green g of
                   Inl e \<Rightarrow> (0, Some e)
                 | Inr gv \<Rightarrow>
                     (case parseChannel Blue b of
                        Inl e \<Rightarrow> (0, Some e)
                      | Inr bv \<Rightarrow> (rv * 65536 + gv * 256 + bv, None))))"
  using rgb_match_complete[OF assms]
  by (simp add: rgbToDecimal_channels numeral_2_eq_2 numeral_3_eq_3 cong: sum.case_cong)

lemma rgbGrammar_digits:
  assumes "rgbGrammar s r g b"
  shows "list_all isDigit r" "r \<noteq> []" "list_all isDigit g" "g \<noteq> []" "list_all isDigit b" "b \<noteq> []"
  using assms unfolding rgbGrammar_def by blast+

lemma parseChannel_not_format:
  assumes "list_all isDigit m" and "m \<noteq> []"
  shows "parseChannel ch m \<noteq> Inl (InvalidFormat h)"
  by (simp add: parseChannel_digits[OF assms])

lemma rgbToDecimal_format_iff:
  "(\<exists>h. snd (rgbToDecimal s) = Some (InvalidFormat h)) \<longleftrightarrow> \<not> (\<exists>r g b. rgbGrammar s r g b)"
proof
  assume "\<exists>h. snd (rgbToDecimal s) = Some (InvalidFormat h)"
  then obtain h where h: "snd (rgbToDecimal s) = Some (InvalidFormat h)" ..
  show "\<not> (\<exists>r g b. rgbGrammar s r g b)"
  proof
    assume "\<exists>r g b. rgbGrammar s r g b"
    then obtain r g b where gr: "rgbGrammar s r g b" by blast
    note d = rgbGrammar_digits[OF gr]
    from h show False
      unfolding rgbToDecimal_grammar[OF gr]
      using parseChannel_not_format[OF d(1,2), of Red h]
        parseChannel_not_format[OF d(3,4), of Green h]
        parseChannel_not_format[OF d(5,6), of Blue h]
      by (auto split: sum.splits)
  qed
next
  assume no: "\<not> (\<exists>r g b. rgbGrammar s r g b)"
  have "FindStringSubmatch rgbRegex s = None"
  proof (cases "FindStringSubmatch rgbRegex s")
    case (Some m)
    from rgb_match_sound[OF this] no show ?thesis by blast
  qed simp
  then have "rgbToDecimal s = (0, Some (InvalidFormat s))"
    by (simp add: rgbToDecimal_channels)
  then show "\<exists>h. snd (rgbToDecimal s) = Some (InvalidFormat h)" by simp
qed

lemma rgbToDecimal_range:
  assumes "rgbToDecimal s = (v, None)"
  shows "0 \<le> v \<and> v \<le> 16777215"
proof -
  from assms obtain m r g b where
    "parseChannel Red (m ! 1) = Inr r" "parseChannel Green (m ! 2) = Inr g"
    "parseChannel Blue (m ! 3) = Inr b" "v = r * 65536 + g * 256 + b"
    by (auto simp: rgbToDecimal_channels split: option.splits if_splits sum.splits)
  then show ?thesis
    using parseChannel_Inr_range[of Red "m ! 1" r] parseChannel_Inr_range[of Green "m ! 2" g]
      parseChannel_Inr_range[of Blue "m ! 3" b] by simp
qed

lemma rgbGrammarI:
  assumes "FindStringSubmatch rgbRegex s = Some [s, r, g, b]"
  shows "rgbGrammar s r g b"
  using rgb_match_sound[OF assms] by simp

section \<open>Properties of the importers\<close>

subsection \<open>Splitting at a separator\<close>

lemma Split_not_Nil: "Split s sep \<noteq> []"
  by (induction s) (auto split: list.splits)



lemma length_Split: "length (Split s sep) = Suc (count_list s sep)"
  by (induction s) (auto simp: Split_not_Nil split: list.splits)

subsection \<open>The scanning loops\<close>

lemma messageSplitLoop_none:
  assumes "CHR '':'' \<notin> set (drop i importID)"
  shows "messageSplitLoop importID i splitParts = splitParts"
  using assms
proof (induction importID i splitParts rule: messageSplitLoop.induct)
  case (1 importID i splitParts)
  show ?case
  proof (cases "i < length importID")
    case True
    then have d: "drop i importID = importID ! i # drop (i + 1) importID"
      by (simp add: Cons_nth_drop_Suc)
    with "1.prems" have ne: "importID ! i \<noteq> CHR '':''"
      and rest: "CHR '':'' \<notin> set (drop (i + 1) importID)" by auto
    show ?thesis
      using True ne "1.IH"[OF True ne rest] by (subst messageSplitLoop.simps) simp
  next
    case False
    then show ?thesis by (subst messageSplitLoop.simps) simp
  qed
qed

lemma messageSplitLoop_first:
  assumes "CHR '':'' \<notin> set a" and "i \<le> length a"
  shows "messageSplitLoop (a @ CHR '':'' # b) i splitParts = splitParts @ [a, b]"
  using assms(2)
proof (induction "length a - i" arbitrary: i)
  case 0
  then have i: "i = length a" by simp
  show ?case by (subst messageSplitLoop.simps) (simp add: i)
next
  case (Suc k)
  then have lt: "i < length a" by simp
  then have "(a @ CHR '':'' # b) ! i = a ! i" by (simp add: nth_append)
  moreover have "a ! i \<noteq> CHR '':''" using assms(1) lt by (metis nth_mem)
  ultimately have ne: "(a @ CHR '':'' # b) ! i \<noteq> CHR '':''" by simp
  have "messageSplitLoop (a @ CHR '':'' # b) i splitParts
          = messageSplitLoop (a @ CHR '':'' # b) (i + 1) splitParts"
    using lt ne by (subst messageSplitLoop.simps) simp
  also have "\<dots> = splitParts @ [a, b]"
    using Suc.hyps(2) lt by (intro Suc.hyps(1)) simp_all
  finally show ?case .
qed

lemma firstColonLoop_none:
  assumes "CHR '':'' \<notin> set (drop i prefix)"
  shows "firstColonLoop prefix i = -1"
  using assms
proof (induction prefix i rule: firstColonLoop.induct)
  case (1 prefix i)
  show ?case
  proof (cases "i < length prefix")
    case True
    then have d: "drop i prefix = prefix ! i # drop (i + 1) prefix"
      by (simp add: Cons_nth_drop_Suc)
    with "1.prems" have ne: "prefix ! i \<noteq> CHR '':''"
      and rest: "CHR '':'' \<notin> set (drop (i + 1) prefix)" by auto
    show ?thesis
      using True ne "1.IH"[OF True ne rest] by (subst firstColonLoop.simps) simp
  next
    case False
    then show ?thesis by (subst firstColonLoop.simps) simp
  qed
qed

lemma firstColonLoop_first:
  assumes "CHR '':'' \<notin> set a" and "i \<le> length a"
  shows "firstColonLoop (a @ CHR '':'' # b) i = int (length a)"
  using assms(2)
proof (induction "length a - i" arbitrary: i)
  case 0
  then have i: "i = length a" by simp
  show ?case by (subst firstColonLoop.simps) (simp add: i)
next
  case (Suc k)
  then have lt: "i < length a" by simp
  then have "(a @ CHR '':'' # b) ! i = a ! i" by (simp add: nth_append)
  moreover have "a ! i \<noteq> CHR '':''" using assms(1) lt by (metis nth_mem)
  ultimately have ne: "(a @ CHR '':'' # b) ! i \<noteq> CHR '':''" by simp
  have "firstColonLoop (a @ CHR '':'' # b) i = firstColonLoop (a @ CHR '':'' # b) (i + 1)"
    using lt ne by (subst firstColonLoop.simps) simp
  also have "\<dots> = int (length a)"
    using Suc.hyps(2) lt by (intro Suc.hyps(1)) simp_all
  finally show ?case .
qed

lemma lastColonLoop_none:
  assumes "CHR '':'' \<notin> set (take n importID)" and "n \<le> length importID"
  shows "lastColonLoop importID n = -1"
  using assms
proof (induction n)
  case 0
  then show ?case by simp
next
  case (Suc n)
  then have "take (Suc n) importID = take n importID @ [importID ! n]"
    by (simp add: take_Suc_conv_app_nth)
  with Suc.prems show ?case using Suc.IH by auto
qed

lemma lastColonLoop_last:
  assumes "CHR '':'' \<notin> set b" and "k \<le> length b"
  shows "lastColonLoop (a @ CHR '':'' # b) (length a + 1 + k) = int (length a)"
  using assms(2)
proof (induction k)
  case 0
  then show ?case by simp
next
  case (Suc k)
  then have lt: "k < length b" by simp
  have "(a @ CHR '':'' # b) ! (length a + 1 + k) = b ! k"
    by (simp add: nth_append)
  moreover have "b ! k \<noteq> CHR '':''" using assms(1) lt by (metis nth_mem)
  ultimately show ?case using Suc.IH lt by simp
qed

subsection \<open>The importers\<close>

lemma messageImportState_no_colon:
  assumes "CHR '':'' \<notin> set s"
  shows "messageImportState s = Inl (if s = [] then InvalidImportID else InvalidImportIDFormat)"
proof -
  have "messageSplitLoop s 0 [] = []"
    by (rule messageSplitLoop_none) (use assms in simp)
  then show ?thesis by (simp add: messageImportState_def)
qed

lemma messageImportState_colon:
  assumes "CHR '':'' \<notin> set a"
  shows "messageImportState (a @ CHR '':'' # b)
           = Inr \<lparr>channel_id = a, message_id = b, id = b\<rparr>"
proof -
  have "messageSplitLoop (a @ CHR '':'' # b) 0 [] = [] @ [a, b]"
    by (rule messageSplitLoop_first[OF assms]) simp
  then show ?thesis by (simp add: messageImportState_def)
qed

lemma emojiImportState_count:
  "emojiImportState s =
     (if s = [] then Inl InvalidImportID
      else if count_list s CHR '':'' \<noteq> 1 then Inl InvalidImportIDFormat
      else Inr \<lparr>emoji_guild_id = Split s CHR '':'' ! 0, emoji_id = Split s CHR '':'' ! 1\<rparr>)"
  by (simp add: emojiImportState_def length_Split Let_def)

lemma roleMemberImportState_count:
  "roleMemberImportState s =
     (if s = [] then Inl InvalidImportID
      else if count_list s CHR '':'' \<noteq> 2 then Inl InvalidImportIDFormat
      else Inr \<lparr>rm_guild_id = Split s CHR '':'' ! 0, rm_role_id = Split s CHR '':'' ! 1,
                rm_user_id = Split s CHR '':'' ! 2, rm_id = s\<rparr>)"
  by (simp add: roleMemberImportState_def length_Split Let_def)



lemma colon_count_ge2E:
  assumes "2 \<le> count_list s CHR '':''"
  obtains a b where "s = a @ CHR '':'' # b" and "CHR '':'' \<notin> set a" and "CHR '':'' \<in> set b"
proof -
  from assms obtain n where n: "count_list s CHR '':'' = Suc (Suc n)"
    by (metis Suc_le_D numeral_2_eq_2 Suc_le_mono)
  from count_list_Suc_split_first[OF n] obtain a b where
    s: "s = a @ CHR '':'' # b" and a: "CHR '':'' \<notin> set a" and b: "count_list b CHR '':'' = Suc n"
    by blast
  from b have "CHR '':'' \<in> set b" by (metis count_list_0_iff nat.distinct(1))
  with s a that show thesis by blast
qed

lemma channelPermissionImportParse_prefix:
  assumes t: "CHR '':'' \<notin> set t"
  shows "channelPermissionImportParse (p @ CHR '':'' # t) =
           (if firstColonLoop p 0 = -1 then Inl InvalidImportID
            else if t = ''role''
            then Inr \<lparr>pi_channel_id = take (nat (firstColonLoop p 0)) p,
                      pi_overwrite_id = drop (nat (firstColonLoop p 0) + 1) p, pi_type_str = t,
                      pi_overwrite_type = PermissionOverwriteTypeRole\<rparr>
            else if t = ''member''
            then Inr \<lparr>pi_channel_id = take (nat (firstColonLoop p 0)) p,
                      pi_overwrite_id = drop (nat (firstColonLoop p 0) + 1) p, pi_type_str = t,
                      pi_overwrite_type = PermissionOverwriteTypeMember\<rparr>
            else Inl (InvalidType t))"
proof -
  have "lastColonLoop (p @ CHR '':'' # t) (length p + 1 + length t) = int (length p)"
    by (rule lastColonLoop_last[OF t]) simp
  then have last: "lastColonLoop (p @ CHR '':'' # t) (length (p @ CHR '':'' # t)) = int (length p)"
    by simp
  show ?thesis
    unfolding channelPermissionImportParse_def Let_def last by simp
qed

lemma channelPermissionImportParse_decomp:
  assumes c: "CHR '':'' \<notin> set c" and t: "CHR '':'' \<notin> set t"
  shows "channelPermissionImportParse ((c @ CHR '':'' # ow) @ CHR '':'' # t) =
           (if t = ''role''
            then Inr \<lparr>pi_channel_id = c, pi_overwrite_id = ow, pi_type_str = t,
                      pi_overwrite_type = PermissionOverwriteTypeRole\<rparr>
            else if t = ''member''
            then Inr \<lparr>pi_channel_id = c, pi_overwrite_id = ow, pi_type_str = t,
                      pi_overwrite_type = PermissionOverwriteTypeMember\<rparr>
            else Inl (InvalidType t))"
proof -
  have first: "firstColonLoop (c @ CHR '':'' # ow) 0 = int (length c)"
    by (rule firstColonLoop_first[OF c]) simp
  show ?thesis
    unfolding channelPermissionImportParse_prefix[OF t] first by simp
qed

lemma channelPermissionImportParse_few:
  assumes "count_list s CHR '':'' < 2"
  shows "channelPermissionImportParse s = Inl InvalidImportID"
proof (cases "count_list s CHR '':'' = 0")
  case True
  then have "CHR '':'' \<notin> set s" by (simp add: count_list_0_iff)
  then have "lastColonLoop s (length s) = -1"
    by (intro lastColonLoop_none) simp_all
  then show ?thesis by (simp add: channelPermissionImportParse_def)
next
  case False
  with assms have "count_list s CHR '':'' = Suc 0" by simp
  from count_list_Suc_split_first[OF this] obtain a b where
    s: "s = a @ CHR '':'' # b" and a: "CHR '':'' \<notin> set a" and b: "CHR '':'' \<notin> set b"
    by (auto simp: count_list_0_iff)
  have first: "firstColonLoop a 0 = -1"
    by (rule firstColonLoop_none) (use a in simp)
  show ?thesis
    unfolding s channelPermissionImportParse_prefix[OF b] first by simp
qed



section \<open>The channel type constants\<close>

lemmas ChannelType_defs =
  ChannelTypeGuildText_def ChannelTypeGuildVoice_def ChannelTypeGuildCategory_def
  ChannelTypeGuildNews_def ChannelTypeGuildStageVoice_def ChannelTypeGuildDirectory_def
  ChannelTypeGuildForum_def ChannelTypeGuildMedia_def

section \<open>The claims\<close>

text \<open>
  C1. For every valid hex colour string (three or six hex digits in either letter case,
  with or without a leading \<open>#\<close>), \<open>hexToDecimal\<close> succeeds and returns the base-16 value
  of the string, every character of a three-digit string being doubled first. The result
  equals that of the normalised string (stripped and upper-cased) and lies between 0 and
  16777215. The examples: \<open>#000000\<close> gives 0, \<open>#FFFFFF\<close> gives 16777215, \<open>4287f5\<close> gives
  4360181, and \<open>#f5a\<close> and \<open>ff55aa\<close> both give 16733610 (which is \<open>0xFF55AA\<close>; the value
  16732330 is not what the function returns).
\<close>

theorem hexToDecimal_valid:
  assumes hex: "list_all isHexDigit ds" and len: "length ds = 3 \<or> length ds = 6"
    and s: "s = ds \<or> s = CHR ''#'' # ds"
  shows "hexToDecimal s = (hexValue (expandShort ds), None)
       \<and> hexToDecimal s = hexToDecimal (ToUpper (TrimPrefix s ''#''))
       \<and> hexToDecimal ds = hexToDecimal (expandShort ds)
       \<and> 0 \<le> hexValue (expandShort ds) \<and> hexValue (expandShort ds) \<le> 16777215
       \<and> hexToDecimal ''#000000'' = (0, None)
       \<and> hexToDecimal ''#FFFFFF'' = (16777215, None)
       \<and> hexToDecimal ''4287f5'' = (4360181, None)
       \<and> hexToDecimal ''#f5a'' = (16733610, None)
       \<and> hexToDecimal ''ff55aa'' = (16733610, None)"
proof -
  have trim: "TrimPrefix s ''#'' = ds"
    using s TrimPrefix_hexdigits[OF hex] TrimPrefix_hash_Cons by auto
  have main: "hexToDecimal s = (hexValue (expandShort ds), None)"
    by (rule hexToDecimal_core[OF hex len trim])
  have uhex: "list_all isHexDigit (ToUpper ds)"
    using ToUpper_hexdigits(1)[OF hex] by (auto simp: list_all_iff isUpperHex_facts)
  have ulen: "length (ToUpper ds) = 3 \<or> length (ToUpper ds) = 6"
    using len ToUpper_hexdigits(2)[OF hex] by simp
  have "hexToDecimal (ToUpper ds) = (hexValue (expandShort (ToUpper ds)), None)"
    by (rule hexToDecimal_core[OF uhex ulen TrimPrefix_hexdigits[OF uhex]])
  moreover have "expandShort (ToUpper ds) = ToUpper (expandShort ds)"
    using len by (auto simp: expandShort_def ToUpper_def elim!: length3E)
  moreover have upval: "hexValue (ToUpper (expandShort ds)) = hexValue (expandShort ds)"
    using ToUpper_hexdigits(3)[OF expandShort_props(1)[OF hex len]] by (simp add: hexValue_def)
  ultimately have norm: "hexToDecimal s = hexToDecimal (ToUpper (TrimPrefix s ''#''))"
    using main trim by simp
  have e: "list_all isHexDigit (expandShort ds)" "length (expandShort ds) = 6"
    using expandShort_props[OF hex len] by simp_all
  have "hexToDecimal (expandShort ds) = (hexValue (expandShort (expandShort ds)), None)"
    by (rule hexToDecimal_core[OF e(1) _ TrimPrefix_hexdigits[OF e(1)]]) (simp add: e(2))
  moreover have "expandShort (expandShort ds) = expandShort ds"
    using e(2) by (simp add: expandShort_def[of "expandShort ds"])
  moreover have "hexToDecimal ds = (hexValue (expandShort ds), None)"
    by (rule hexToDecimal_core[OF hex len TrimPrefix_hexdigits[OF hex]])
  ultimately have dup: "hexToDecimal ds = hexToDecimal (expandShort ds)" by simp
  have e6: "list_all isUpperHex (ToUpper (expandShort ds))" "length (ToUpper (expandShort ds)) = 6"
    using ToUpper_hexdigits[OF e(1)] e(2) by simp_all
  have range: "0 \<le> hexValue (expandShort ds)" "hexValue (expandShort ds) \<le> 16777215"
    using upperhex_six(2,3)[OF e6] upval by simp_all
  have ex1: "hexToDecimal ''#000000'' = (0, None)" by code_simp
  have ex2: "hexToDecimal ''#FFFFFF'' = (16777215, None)" by code_simp
  have ex3: "hexToDecimal ''4287f5'' = (4360181, None)" by code_simp
  have ex4: "hexToDecimal ''#f5a'' = (16733610, None)" by code_simp
  have ex5: "hexToDecimal ''ff55aa'' = (16733610, None)" by code_simp
  show ?thesis
    using main norm dup range ex1 ex2 ex3 ex4 ex5 by blast
qed

theorem hexToDecimal_valid_witness:
  "list_all isHexDigit ''f5a'' \<and> length ''f5a'' = 3
   \<and> hexToDecimal ''#f5a'' = (hexValue ''ff55aa'', None)
   \<and> hexToDecimal ''f5a'' = hexToDecimal ''ff55aa''
   \<and> hexValue ''ff55aa'' = 16733610"
proof -
  have h: "list_all isHexDigit ''f5a''" by code_simp
  have l: "length ''f5a'' = 3 \<or> length ''f5a'' = 6" by simp
  have e: "expandShort ''f5a'' = ''ff55aa''" by code_simp
  have v: "hexValue ''ff55aa'' = 16733610" by code_simp
  show ?thesis
    using hexToDecimal_valid[OF h l, of "''#f5a''"] h e v by simp
qed

theorem hexToDecimal_example_counterexample:
  "hexToDecimal ''#f5a'' = (16733610, None) \<and> hexToDecimal ''ff55aa'' = (16733610, None)
   \<and> hexToDecimal ''#f5a'' \<noteq> (16732330, None)"
  by code_simp

text \<open>
  C2. For every string of the form \<open>rgb(R, G, B)\<close>, white space allowed around the
  components and the parentheses, whose three digit strings denote integers of at most 255,
  \<open>rgbToDecimal\<close> succeeds and returns \<open>R * 65536 + G * 256 + B\<close>. The examples:
  \<open>rgb(46, 204, 113)\<close> and \<open>rgb(46,204,113)\<close> both give \<open>46 * 65536 + 204 * 256 + 113\<close>, which
  is 3066993 (not 3033457); \<open>rgb(255,0,0)\<close> gives 16711680, \<open>rgb(0,255,0)\<close> gives 65280 and
  \<open>rgb(0,0,255)\<close> gives 255.
\<close>

theorem rgbToDecimal_valid:
  assumes "rgbGrammar s r g b"
    and "decValue r \<le> 255" and "decValue g \<le> 255" and "decValue b \<le> 255"
  shows "rgbToDecimal s = (decValue r * 65536 + decValue g * 256 + decValue b, None)
       \<and> rgbToDecimal ''rgb(46, 204, 113)'' = (46 * 65536 + 204 * 256 + 113, None)
       \<and> rgbToDecimal ''rgb(46,204,113)'' = (46 * 65536 + 204 * 256 + 113, None)
       \<and> 46 * 65536 + 204 * 256 + 113 = (3066993 :: int)
       \<and> rgbToDecimal ''rgb(255,0,0)'' = (16711680, None)
       \<and> rgbToDecimal ''rgb(0,255,0)'' = (65280, None)
       \<and> rgbToDecimal ''rgb(0,0,255)'' = (255, None)"
proof -
  note d = rgbGrammar_digits[OF assms(1)]
  have main: "rgbToDecimal s = (decValue r * 65536 + decValue g * 256 + decValue b, None)"
    using assms(2-4)
    by (simp add: rgbToDecimal_grammar[OF assms(1)] parseChannel_digits[OF d(1,2)]
        parseChannel_digits[OF d(3,4)] parseChannel_digits[OF d(5,6)])
  have ex1: "rgbToDecimal ''rgb(46, 204, 113)'' = (46 * 65536 + 204 * 256 + 113, None)" by code_simp
  have ex2: "rgbToDecimal ''rgb(46,204,113)'' = (46 * 65536 + 204 * 256 + 113, None)" by code_simp
  have ex3: "rgbToDecimal ''rgb(255,0,0)'' = (16711680, None)" by code_simp
  have ex4: "rgbToDecimal ''rgb(0,255,0)'' = (65280, None)" by code_simp
  have ex5: "rgbToDecimal ''rgb(0,0,255)'' = (255, None)" by code_simp
  show ?thesis using main ex1 ex2 ex3 ex4 ex5 by simp
qed

theorem rgbToDecimal_valid_witness:
  "rgbGrammar ''rgb(46, 204, 113)'' ''46'' ''204'' ''113''
   \<and> decValue ''46'' = 46 \<and> decValue ''204'' = 204 \<and> decValue ''113'' = 113
   \<and> rgbToDecimal ''rgb(46, 204, 113)'' = (3066993, None)"
proof -
  have m: "FindStringSubmatch rgbRegex ''rgb(46, 204, 113)''
             = Some [''rgb(46, 204, 113)'', ''46'', ''204'', ''113'']" by code_simp
  have g: "rgbGrammar ''rgb(46, 204, 113)'' ''46'' ''204'' ''113''"
    by (rule rgbGrammarI[OF m])
  have v: "decValue ''46'' = 46" "decValue ''204'' = 204" "decValue ''113'' = 113"
    by code_simp+
  show ?thesis
    using rgbToDecimal_valid[OF g] g v by simp
qed

theorem rgbToDecimal_example_counterexample:
  "rgbToDecimal ''rgb(46, 204, 113)'' = (3066993, None)
   \<and> rgbToDecimal ''rgb(46,204,113)'' = (3066993, None)
   \<and> rgbToDecimal ''rgb(46, 204, 113)'' \<noteq> (3033457, None)"
  by code_simp




text \<open>
  C4. A composite import ID is refused, always with an invalid-import-ID diagnostic, exactly
  when it does not split into the expected number of segments: the message importer
  refuses the IDs without a colon, the emoji importer those that do not have exactly one
  colon, and the role-member importer those whose split at the colons does not give three
  pieces, that is those that do not have exactly two colons. No importer looks at whether
  a segment is empty: \<open>:\<close> and \<open>::\<close> are accepted with empty segments.
\<close>

theorem import_parse_failures:
  "((\<exists>d. messageImportState s = Inl d) \<longleftrightarrow> CHR '':'' \<notin> set s)
   \<and> (messageImportState s = Inl d \<longrightarrow> isInvalidImportID d)
   \<and> ((\<exists>d. emojiImportState s = Inl d) \<longleftrightarrow> count_list s CHR '':'' \<noteq> 1)
   \<and> (emojiImportState s = Inl d \<longrightarrow> isInvalidImportID d)
   \<and> ((\<exists>d. roleMemberImportState s = Inl d) \<longleftrightarrow> length (Split s CHR '':'') \<noteq> 3)
   \<and> (roleMemberImportState s = Inl d \<longrightarrow> isInvalidImportID d)
   \<and> (length (Split s CHR '':'') = 3 \<longleftrightarrow> count_list s CHR '':'' = 2)"
proof -
  have m1: "(\<exists>d. messageImportState s = Inl d) \<longleftrightarrow> CHR '':'' \<notin> set s"
  proof (cases "CHR '':'' \<in> set s")
    case True
    from split_list_first[OF this] obtain a b where
      "s = a @ CHR '':'' # b" "CHR '':'' \<notin> set a" by blast
    then show ?thesis using messageImportState_colon[of a b] by auto
  next
    case False
    then show ?thesis by (simp add: messageImportState_no_colon)
  qed
  have m2: "messageImportState s = Inl d \<longrightarrow> isInvalidImportID d"
    by (auto simp: messageImportState_def isInvalidImportID_def Let_def split: if_splits)
  have e1: "(\<exists>d. emojiImportState s = Inl d) \<longleftrightarrow> count_list s CHR '':'' \<noteq> 1"
    by (auto simp: emojiImportState_count)
  have e2: "emojiImportState s = Inl d \<longrightarrow> isInvalidImportID d"
    by (auto simp: emojiImportState_def isInvalidImportID_def Let_def split: if_splits)
  have r1: "(\<exists>d. roleMemberImportState s = Inl d) \<longleftrightarrow> length (Split s CHR '':'') \<noteq> 3"
    by (auto simp: roleMemberImportState_count length_Split)
  have r2: "roleMemberImportState s = Inl d \<longrightarrow> isInvalidImportID d"
    by (auto simp: roleMemberImportState_def isInvalidImportID_def Let_def split: if_splits)
  have c: "length (Split s CHR '':'') = 3 \<longleftrightarrow> count_list s CHR '':'' = 2"
    by (auto simp: length_Split)
  show ?thesis using m1 m2 e1 e2 r1 r2 c by blast
qed

theorem import_parse_failures_witness:
  "CHR '':'' \<notin> set ''123456789012345678''
   \<and> (\<exists>d. messageImportState ''123456789012345678'' = Inl d)
   \<and> count_list ''1:2'' CHR '':'' \<noteq> 2
   \<and> (\<exists>d. roleMemberImportState ''1:2'' = Inl d)"
proof -
  have a: "CHR '':'' \<notin> set ''123456789012345678''" by simp
  have b: "count_list ''1:2'' CHR '':'' \<noteq> 2" by simp
  from import_parse_failures[of "''123456789012345678''"] a
  have r1: "\<exists>d. messageImportState ''123456789012345678'' = Inl d" by blast
  from import_parse_failures[of "''1:2''"] b
  have r2: "\<exists>d. roleMemberImportState ''1:2'' = Inl d" by blast
  show ?thesis using a b r1 r2 by blast
qed

theorem import_parse_empty_segments_counterexample:
  "messageImportState '':'' = Inr \<lparr>channel_id = [], message_id = [], id = []\<rparr>
   \<and> messageImportState ''a:'' = Inr \<lparr>channel_id = ''a'', message_id = [], id = []\<rparr>
   \<and> emojiImportState '':'' = Inr \<lparr>emoji_guild_id = [], emoji_id = []\<rparr>
   \<and> roleMemberImportState ''::''
       = Inr \<lparr>rm_guild_id = [], rm_role_id = [], rm_user_id = [], rm_id = ''::''\<rparr>"
  by code_simp

text \<open>
  C5. Let \<open>n\<close> be the input without one leading \<open>#\<close>, in upper case. \<open>hexToDecimal\<close> fails
  with \<open>InvalidFormat\<close> exactly when \<open>n\<close> does not match \<open>^[0-9A-F]+$\<close>, and with
  \<open>InvalidLength\<close> exactly when \<open>n\<close> matches and its length is neither 3 nor 6: the format
  is checked first, so a string of another length that does not match fails with
  \<open>InvalidFormat\<close>. A failure returns 0 with the error, and the parse of the six digits
  never fails. \<open>#GGGGGG\<close> fails with \<open>InvalidFormat\<close>, \<open>#12345\<close> with \<open>InvalidLength\<close>.
\<close>

theorem hexToDecimal_errors:
  fixes s :: string
  defines "n \<equiv> ToUpper (TrimPrefix s ''#'')"
  shows "((\<exists>h. snd (hexToDecimal s) = Some (InvalidFormat h))
            \<longleftrightarrow> \<not> (n \<noteq> [] \<and> set n \<subseteq> set ''0123456789ABCDEF''))
       \<and> ((\<exists>h. snd (hexToDecimal s) = Some (InvalidLength h))
            \<longleftrightarrow> (n \<noteq> [] \<and> set n \<subseteq> set ''0123456789ABCDEF'') \<and> length n \<noteq> 3 \<and> length n \<noteq> 6)
       \<and> (snd (hexToDecimal s) \<noteq> None \<longrightarrow> fst (hexToDecimal s) = 0)
       \<and> (\<forall>e. snd (hexToDecimal s) \<noteq> Some (HexParseError e))
       \<and> hexToDecimal ''#GGGGGG'' = (0, Some (InvalidFormat ''GGGGGG''))
       \<and> hexToDecimal ''#12345'' = (0, Some (InvalidLength ''12345''))"
proof -
  have ex1: "hexToDecimal ''#GGGGGG'' = (0, Some (InvalidFormat ''GGGGGG''))" by code_simp
  have ex2: "hexToDecimal ''#12345'' = (0, Some (InvalidLength ''12345''))" by code_simp
  have c: "hexToDecimal s =
           (if \<not> hexPattern n then (0, Some (InvalidFormat n))
            else if length n = 3 \<or> length n = 6 then (hexValue (expandShort n), None)
            else (0, Some (InvalidLength n)))"
    unfolding n_def by (rule hexToDecimal_cases)
  show ?thesis
    unfolding hexPattern_iff[symmetric] using ex1 ex2 by (simp add: c)
qed

theorem hexToDecimal_errors_witness:
  "snd (hexToDecimal ''#12345'') = Some (InvalidLength ''12345'')
   \<and> fst (hexToDecimal ''#12345'') = 0
   \<and> set ''12345'' \<subseteq> set ''0123456789ABCDEF'' \<and> length ''12345'' = 5"
  using hexToDecimal_errors[of "''#12345''"] by simp

theorem hexToDecimal_length_counterexample:
  "length ''GGGG'' = 4 \<and> hexToDecimal ''GGGG'' = (0, Some (InvalidFormat ''GGGG''))"
  by code_simp

text \<open>
  C6. \<open>rgbToDecimal\<close> fails with \<open>InvalidFormat\<close> exactly when the input is not of the form
  \<open>rgb(R, G, B)\<close>; the form has no sign, so \<open>rgb(-1,0,0)\<close> fails with \<open>InvalidFormat\<close>, as
  \<open>46, 204, 113\<close> does. On an input of that form the channels are checked in the order red,
  green, blue, and the first one above 255 decides: a value below \<open>2 ^ 63\<close> fails with the
  \<open>OutOfRange\<close> error of that channel (\<open>rgb(256,0,0)\<close> with that of red), a value from
  \<open>2 ^ 63\<close> on with the parse error of that channel. A failure returns 0 with the error.
\<close>

theorem rgbToDecimal_errors:
  "((\<exists>h. snd (rgbToDecimal s) = Some (InvalidFormat h)) \<longleftrightarrow> \<not> (\<exists>r g b. rgbGrammar s r g b))
   \<and> (rgbGrammar s r g b \<longrightarrow>
        (255 < decValue r \<and> decValue r < 2 ^ 63
           \<longrightarrow> rgbToDecimal s = (0, Some (OutOfRange Red (decValue r))))
      \<and> (decValue r \<le> 255 \<and> 255 < decValue g \<and> decValue g < 2 ^ 63
           \<longrightarrow> rgbToDecimal s = (0, Some (OutOfRange Green (decValue g))))
      \<and> (decValue r \<le> 255 \<and> decValue g \<le> 255 \<and> 255 < decValue b \<and> decValue b < 2 ^ 63
           \<longrightarrow> rgbToDecimal s = (0, Some (OutOfRange Blue (decValue b))))
      \<and> (2 ^ 63 \<le> decValue r
           \<longrightarrow> rgbToDecimal s = (0, Some (ChannelParseError Red ErrRange)))
      \<and> (decValue r \<le> 255 \<and> 2 ^ 63 \<le> decValue g
           \<longrightarrow> rgbToDecimal s = (0, Some (ChannelParseError Green ErrRange)))
      \<and> (decValue r \<le> 255 \<and> decValue g \<le> 255 \<and> 2 ^ 63 \<le> decValue b
           \<longrightarrow> rgbToDecimal s = (0, Some (ChannelParseError Blue ErrRange))))
   \<and> (snd (rgbToDecimal s) \<noteq> None \<longrightarrow> fst (rgbToDecimal s) = 0)
   \<and> rgbToDecimal ''46, 204, 113'' = (0, Some (InvalidFormat ''46, 204, 113''))
   \<and> rgbToDecimal ''rgb(256,0,0)'' = (0, Some (OutOfRange Red 256))
   \<and> rgbToDecimal ''rgb(-1,0,0)'' = (0, Some (InvalidFormat ''rgb(-1,0,0)''))"
proof -
  have gram: "rgbGrammar s r g b \<longrightarrow>
        (255 < decValue r \<and> decValue r < 2 ^ 63
           \<longrightarrow> rgbToDecimal s = (0, Some (OutOfRange Red (decValue r))))
      \<and> (decValue r \<le> 255 \<and> 255 < decValue g \<and> decValue g < 2 ^ 63
           \<longrightarrow> rgbToDecimal s = (0, Some (OutOfRange Green (decValue g))))
      \<and> (decValue r \<le> 255 \<and> decValue g \<le> 255 \<and> 255 < decValue b \<and> decValue b < 2 ^ 63
           \<longrightarrow> rgbToDecimal s = (0, Some (OutOfRange Blue (decValue b))))
      \<and> (2 ^ 63 \<le> decValue r
           \<longrightarrow> rgbToDecimal s = (0, Some (ChannelParseError Red ErrRange)))
      \<and> (decValue r \<le> 255 \<and> 2 ^ 63 \<le> decValue g
           \<longrightarrow> rgbToDecimal s = (0, Some (ChannelParseError Green ErrRange)))
      \<and> (decValue r \<le> 255 \<and> decValue g \<le> 255 \<and> 2 ^ 63 \<le> decValue b
           \<longrightarrow> rgbToDecimal s = (0, Some (ChannelParseError Blue ErrRange)))"
  proof
    assume gr: "rgbGrammar s r g b"
    note d = rgbGrammar_digits[OF gr]
    show "(255 < decValue r \<and> decValue r < 2 ^ 63
           \<longrightarrow> rgbToDecimal s = (0, Some (OutOfRange Red (decValue r))))
      \<and> (decValue r \<le> 255 \<and> 255 < decValue g \<and> decValue g < 2 ^ 63
           \<longrightarrow> rgbToDecimal s = (0, Some (OutOfRange Green (decValue g))))
      \<and> (decValue r \<le> 255 \<and> decValue g \<le> 255 \<and> 255 < decValue b \<and> decValue b < 2 ^ 63
           \<longrightarrow> rgbToDecimal s = (0, Some (OutOfRange Blue (decValue b))))
      \<and> (2 ^ 63 \<le> decValue r
           \<longrightarrow> rgbToDecimal s = (0, Some (ChannelParseError Red ErrRange)))
      \<and> (decValue r \<le> 255 \<and> 2 ^ 63 \<le> decValue g
           \<longrightarrow> rgbToDecimal s = (0, Some (ChannelParseError Green ErrRange)))
      \<and> (decValue r \<le> 255 \<and> decValue g \<le> 255 \<and> 2 ^ 63 \<le> decValue b
           \<longrightarrow> rgbToDecimal s = (0, Some (ChannelParseError Blue ErrRange)))"
      by (simp add: rgbToDecimal_grammar[OF gr] parseChannel_digits[OF d(1,2)]
          parseChannel_digits[OF d(3,4)] parseChannel_digits[OF d(5,6)])
  qed
  have zero: "snd (rgbToDecimal s) \<noteq> None \<longrightarrow> fst (rgbToDecimal s) = 0"
    by (auto simp: rgbToDecimal_channels split: option.splits sum.splits)
  have ex1: "rgbToDecimal ''46, 204, 113'' = (0, Some (InvalidFormat ''46, 204, 113''))"
    by code_simp
  have ex2: "rgbToDecimal ''rgb(256,0,0)'' = (0, Some (OutOfRange Red 256))" by code_simp
  have ex3: "rgbToDecimal ''rgb(-1,0,0)'' = (0, Some (InvalidFormat ''rgb(-1,0,0)''))"
    by code_simp
  show ?thesis
    using rgbToDecimal_format_iff[of s] gram zero ex1 ex2 ex3 by blast
qed

theorem rgbToDecimal_errors_witness:
  "rgbGrammar ''rgb(0,256,0)'' ''0'' ''256'' ''0''
   \<and> decValue ''0'' = 0 \<and> decValue ''256'' = 256
   \<and> rgbToDecimal ''rgb(0,256,0)'' = (0, Some (OutOfRange Green 256))"
proof -
  have m: "FindStringSubmatch rgbRegex ''rgb(0,256,0)''
             = Some [''rgb(0,256,0)'', ''0'', ''256'', ''0'']" by code_simp
  have g: "rgbGrammar ''rgb(0,256,0)'' ''0'' ''256'' ''0''"
    by (rule rgbGrammarI[OF m])
  have v: "decValue ''0'' = 0" "decValue ''256'' = 256"
    by code_simp+
  show ?thesis
    using rgbToDecimal_errors[of "''rgb(0,256,0)''" "''0''" "''256''" "''0''"] g v by simp
qed

theorem rgbToDecimal_errors_counterexample:
  "rgbToDecimal ''rgb(-1,0,0)'' = (0, Some (InvalidFormat ''rgb(-1,0,0)''))
   \<and> rgbToDecimal ''rgb(9223372036854775808,0,0)'' = (0, Some (ChannelParseError Red ErrRange))"
  by code_simp

text \<open>
  C7. \<open>channelTypeFromString\<close> maps \<open>text\<close> and the empty string to the text constant, \<open>voice\<close>,
  \<open>category\<close>, \<open>media\<close> and \<open>directory\<close> to theirs, and fails on every other name, returning
  the text constant with the error. \<open>channelTypeToString\<close> inverts it on those five
  constants, renders the news, stage and forum constants too, and gives \<open>text\<close> for every
  other number.
\<close>

theorem channel_type_codec:
  "channelTypeFromString ''text'' = (ChannelTypeGuildText, None)
   \<and> channelTypeFromString [] = (ChannelTypeGuildText, None)
   \<and> channelTypeFromString ''voice'' = (ChannelTypeGuildVoice, None)
   \<and> channelTypeFromString ''category'' = (ChannelTypeGuildCategory, None)
   \<and> channelTypeFromString ''media'' = (ChannelTypeGuildMedia, None)
   \<and> channelTypeFromString ''directory'' = (ChannelTypeGuildDirectory, None)
   \<and> (typeStr \<notin> {''text'', [], ''voice'', ''category'', ''media'', ''directory''}
        \<longrightarrow> channelTypeFromString typeStr
              = (ChannelTypeGuildText, Some (UnsupportedChannelType typeStr)))
   \<and> (x \<in> {ChannelTypeGuildText, ChannelTypeGuildVoice, ChannelTypeGuildCategory,
              ChannelTypeGuildMedia, ChannelTypeGuildDirectory}
        \<longrightarrow> channelTypeFromString (channelTypeToString x) = (x, None))
   \<and> channelTypeToString ChannelTypeGuildText = ''text''
   \<and> channelTypeToString ChannelTypeGuildVoice = ''voice''
   \<and> channelTypeToString ChannelTypeGuildCategory = ''category''
   \<and> channelTypeToString ChannelTypeGuildMedia = ''media''
   \<and> channelTypeToString ChannelTypeGuildDirectory = ''directory''
   \<and> channelTypeToString ChannelTypeGuildNews = ''news''
   \<and> channelTypeToString ChannelTypeGuildStageVoice = ''stage''
   \<and> channelTypeToString ChannelTypeGuildForum = ''forum''
   \<and> (y \<notin> {ChannelTypeGuildText, ChannelTypeGuildVoice, ChannelTypeGuildCategory,
              ChannelTypeGuildNews, ChannelTypeGuildStageVoice, ChannelTypeGuildForum,
              ChannelTypeGuildMedia, ChannelTypeGuildDirectory}
        \<longrightarrow> channelTypeToString y = ''text'')"
proof -
  have from_str:
    "channelTypeFromString ''text'' = (ChannelTypeGuildText, None)"
    "channelTypeFromString [] = (ChannelTypeGuildText, None)"
    "channelTypeFromString ''voice'' = (ChannelTypeGuildVoice, None)"
    "channelTypeFromString ''category'' = (ChannelTypeGuildCategory, None)"
    "channelTypeFromString ''media'' = (ChannelTypeGuildMedia, None)"
    "channelTypeFromString ''directory'' = (ChannelTypeGuildDirectory, None)"
    by (simp_all add: channelTypeFromString_def)
  have other: "typeStr \<notin> {''text'', [], ''voice'', ''category'', ''media'', ''directory''}
        \<longrightarrow> channelTypeFromString typeStr
              = (ChannelTypeGuildText, Some (UnsupportedChannelType typeStr))"
    by (simp add: channelTypeFromString_def)
  have to_str:
    "channelTypeToString ChannelTypeGuildText = ''text''"
    "channelTypeToString ChannelTypeGuildVoice = ''voice''"
    "channelTypeToString ChannelTypeGuildCategory = ''category''"
    "channelTypeToString ChannelTypeGuildMedia = ''media''"
    "channelTypeToString ChannelTypeGuildDirectory = ''directory''"
    "channelTypeToString ChannelTypeGuildNews = ''news''"
    "channelTypeToString ChannelTypeGuildStageVoice = ''stage''"
    "channelTypeToString ChannelTypeGuildForum = ''forum''"
    by (simp_all add: channelTypeToString_def ChannelType_defs)
  have inv: "x \<in> {ChannelTypeGuildText, ChannelTypeGuildVoice, ChannelTypeGuildCategory,
              ChannelTypeGuildMedia, ChannelTypeGuildDirectory}
        \<longrightarrow> channelTypeFromString (channelTypeToString x) = (x, None)"
    using from_str to_str by auto
  have dflt: "y \<notin> {ChannelTypeGuildText, ChannelTypeGuildVoice, ChannelTypeGuildCategory,
              ChannelTypeGuildNews, ChannelTypeGuildStageVoice, ChannelTypeGuildForum,
              ChannelTypeGuildMedia, ChannelTypeGuildDirectory}
        \<longrightarrow> channelTypeToString y = ''text''"
    by (simp add: channelTypeToString_def)
  show ?thesis using from_str other to_str inv dflt by blast
qed

theorem channel_type_codec_witness:
  "''stage'' \<notin> {''text'', [], ''voice'', ''category'', ''media'', ''directory''}
   \<and> channelTypeFromString ''stage'' = (ChannelTypeGuildText, Some (UnsupportedChannelType ''stage''))
   \<and> ChannelTypeGuildMedia \<in> {ChannelTypeGuildText, ChannelTypeGuildVoice, ChannelTypeGuildCategory,
              ChannelTypeGuildMedia, ChannelTypeGuildDirectory}
   \<and> channelTypeFromString (channelTypeToString ChannelTypeGuildMedia) = (ChannelTypeGuildMedia, None)
   \<and> 999 \<notin> {ChannelTypeGuildText, ChannelTypeGuildVoice, ChannelTypeGuildCategory,
              ChannelTypeGuildNews, ChannelTypeGuildStageVoice, ChannelTypeGuildForum,
              ChannelTypeGuildMedia, ChannelTypeGuildDirectory}
   \<and> channelTypeToString 999 = ''text''"
proof -
  have a: "''stage'' \<notin> {''text'', [], ''voice'', ''category'', ''media'', ''directory''}" by simp
  have b: "ChannelTypeGuildMedia \<in> {ChannelTypeGuildText, ChannelTypeGuildVoice,
             ChannelTypeGuildCategory, ChannelTypeGuildMedia, ChannelTypeGuildDirectory}" by simp
  have c: "999 \<notin> {ChannelTypeGuildText, ChannelTypeGuildVoice, ChannelTypeGuildCategory,
              ChannelTypeGuildNews, ChannelTypeGuildStageVoice, ChannelTypeGuildForum,
              ChannelTypeGuildMedia, ChannelTypeGuildDirectory}"
    by (simp add: ChannelType_defs)
  note th = channel_type_codec[of "''stage''" ChannelTypeGuildMedia 999]
  from th a have r1: "channelTypeFromString ''stage''
      = (ChannelTypeGuildText, Some (UnsupportedChannelType ''stage''))" by blast
  from th b have r2: "channelTypeFromString (channelTypeToString ChannelTypeGuildMedia)
      = (ChannelTypeGuildMedia, None)" by blast
  from th c have r3: "channelTypeToString 999 = ''text''" by blast
  show ?thesis using a b c r1 r2 r3 by blast
qed

text \<open>
  C8. The channel-permission importer takes what follows the last colon as the type tag
  and splits what precedes it at its first colon into channel and overwrite ID; the tag
  must be \<open>role\<close> or \<open>member\<close>. An ID with fewer than two colons fails with the
  invalid-import-ID diagnostic. An ID built from a channel segment that contains a colon
  is accepted with a wrong decomposition: the channel ID returned ends at the first colon
  and the rest moves into the overwrite ID. A colon in the overwrite segment alone does no
  harm: the ID is accepted and the segments come back as they were, the overwrite ID with
  its colon.
\<close>

theorem channelPermissionImportParse_spec:
  "(count_list s CHR '':'' < 2 \<longrightarrow> channelPermissionImportParse s = Inl InvalidImportID)
   \<and> (CHR '':'' \<notin> set c \<and> CHR '':'' \<notin> set t \<longrightarrow>
        channelPermissionImportParse (c @ '':'' @ ow @ '':'' @ t) =
           (if t = ''role''
            then Inr \<lparr>pi_channel_id = c, pi_overwrite_id = ow, pi_type_str = t,
                      pi_overwrite_type = PermissionOverwriteTypeRole\<rparr>
            else if t = ''member''
            then Inr \<lparr>pi_channel_id = c, pi_overwrite_id = ow, pi_type_str = t,
                      pi_overwrite_type = PermissionOverwriteTypeMember\<rparr>
            else Inl (InvalidType t)))
   \<and> ((CHR '':'' \<in> set c' \<or> CHR '':'' \<in> set ow') \<and> (t' = ''role'' \<or> t' = ''member'') \<longrightarrow>
        (\<exists>p. channelPermissionImportParse (c' @ '':'' @ ow' @ '':'' @ t') = Inr p
            \<and> pi_type_str p = t'
            \<and> CHR '':'' \<notin> set (pi_channel_id p) \<and> CHR '':'' \<in> set (pi_overwrite_id p)
            \<and> (CHR '':'' \<in> set c' \<longrightarrow> pi_channel_id p \<noteq> c' \<and> pi_overwrite_id p \<noteq> ow')))
   \<and> channelPermissionImportParse ''a:b:c:role''
        = Inr \<lparr>pi_channel_id = ''a'', pi_overwrite_id = ''b:c'', pi_type_str = ''role'',
               pi_overwrite_type = PermissionOverwriteTypeRole\<rparr>"
proof -
  have p1: "count_list s CHR '':'' < 2 \<longrightarrow> channelPermissionImportParse s = Inl InvalidImportID"
    using channelPermissionImportParse_few by blast
  have p2: "CHR '':'' \<notin> set c \<and> CHR '':'' \<notin> set t \<longrightarrow>
        channelPermissionImportParse (c @ '':'' @ ow @ '':'' @ t) =
           (if t = ''role''
            then Inr \<lparr>pi_channel_id = c, pi_overwrite_id = ow, pi_type_str = t,
                      pi_overwrite_type = PermissionOverwriteTypeRole\<rparr>
            else if t = ''member''
            then Inr \<lparr>pi_channel_id = c, pi_overwrite_id = ow, pi_type_str = t,
                      pi_overwrite_type = PermissionOverwriteTypeMember\<rparr>
            else Inl (InvalidType t))"
    using channelPermissionImportParse_decomp[of c t ow] by simp
  have p3: "(CHR '':'' \<in> set c' \<or> CHR '':'' \<in> set ow') \<and> (t' = ''role'' \<or> t' = ''member'') \<longrightarrow>
        (\<exists>p. channelPermissionImportParse (c' @ '':'' @ ow' @ '':'' @ t') = Inr p
            \<and> pi_type_str p = t'
            \<and> CHR '':'' \<notin> set (pi_channel_id p) \<and> CHR '':'' \<in> set (pi_overwrite_id p)
            \<and> (CHR '':'' \<in> set c' \<longrightarrow> pi_channel_id p \<noteq> c' \<and> pi_overwrite_id p \<noteq> ow'))"
  proof
    assume h: "(CHR '':'' \<in> set c' \<or> CHR '':'' \<in> set ow') \<and> (t' = ''role'' \<or> t' = ''member'')"
    then have t: "CHR '':'' \<notin> set t'" by auto
    show "\<exists>p. channelPermissionImportParse (c' @ '':'' @ ow' @ '':'' @ t') = Inr p
            \<and> pi_type_str p = t'
            \<and> CHR '':'' \<notin> set (pi_channel_id p) \<and> CHR '':'' \<in> set (pi_overwrite_id p)
            \<and> (CHR '':'' \<in> set c' \<longrightarrow> pi_channel_id p \<noteq> c' \<and> pi_overwrite_id p \<noteq> ow')"
    proof (cases "CHR '':'' \<in> set c'")
      case True
      from split_list_first[OF this] obtain c1 c2 where
        c': "c' = c1 @ CHR '':'' # c2" and c1: "CHR '':'' \<notin> set c1" by blast
      let ?ow = "c2 @ CHR '':'' # ow'"
      let ?p = "\<lparr>pi_channel_id = c1, pi_overwrite_id = ?ow, pi_type_str = t',
                  pi_overwrite_type = (if t' = ''role'' then PermissionOverwriteTypeRole
                                       else PermissionOverwriteTypeMember)\<rparr>"
      have eq: "c' @ '':'' @ ow' @ '':'' @ t' = (c1 @ CHR '':'' # ?ow) @ CHR '':'' # t'"
        by (simp add: c')
      have r: "channelPermissionImportParse (c' @ '':'' @ ow' @ '':'' @ t') = Inr ?p"
        unfolding eq channelPermissionImportParse_decomp[OF c1 t] using h by auto
      have "length ?ow \<noteq> length ow'" by simp
      then have ne: "?ow \<noteq> ow'" by metis
      have "c1 \<noteq> c'" using True c1 by auto
      then have "pi_type_str ?p = t'
            \<and> CHR '':'' \<notin> set (pi_channel_id ?p) \<and> CHR '':'' \<in> set (pi_overwrite_id ?p)
            \<and> (CHR '':'' \<in> set c' \<longrightarrow> pi_channel_id ?p \<noteq> c' \<and> pi_overwrite_id ?p \<noteq> ow')"
        using c1 ne by simp
      with r show ?thesis by blast
    next
      case False
      with h have ow: "CHR '':'' \<in> set ow'" by simp
      let ?p = "\<lparr>pi_channel_id = c', pi_overwrite_id = ow', pi_type_str = t',
                  pi_overwrite_type = (if t' = ''role'' then PermissionOverwriteTypeRole
                                       else PermissionOverwriteTypeMember)\<rparr>"
      have eq: "c' @ '':'' @ ow' @ '':'' @ t' = (c' @ CHR '':'' # ow') @ CHR '':'' # t'" by simp
      have r: "channelPermissionImportParse (c' @ '':'' @ ow' @ '':'' @ t') = Inr ?p"
        unfolding eq channelPermissionImportParse_decomp[OF False t] using h by auto
      have "pi_type_str ?p = t'
            \<and> CHR '':'' \<notin> set (pi_channel_id ?p) \<and> CHR '':'' \<in> set (pi_overwrite_id ?p)
            \<and> (CHR '':'' \<in> set c' \<longrightarrow> pi_channel_id ?p \<noteq> c' \<and> pi_overwrite_id ?p \<noteq> ow')"
        using ow False by simp
      with r show ?thesis by blast
    qed
  qed
  have ex: "channelPermissionImportParse ''a:b:c:role''
        = Inr \<lparr>pi_channel_id = ''a'', pi_overwrite_id = ''b:c'', pi_type_str = ''role'',
               pi_overwrite_type = PermissionOverwriteTypeRole\<rparr>" by code_simp
  show ?thesis using p1 p2 p3 ex by blast
qed

theorem channelPermissionImportParse_spec_witness:
  "count_list ''123:role'' CHR '':'' < 2
   \<and> channelPermissionImportParse ''123:role'' = Inl InvalidImportID
   \<and> CHR '':'' \<notin> set ''123'' \<and> CHR '':'' \<notin> set ''member''
   \<and> channelPermissionImportParse ''123:456:member''
       = Inr \<lparr>pi_channel_id = ''123'', pi_overwrite_id = ''456'', pi_type_str = ''member'',
              pi_overwrite_type = PermissionOverwriteTypeMember\<rparr>
   \<and> CHR '':'' \<in> set ''1:2''
   \<and> (\<exists>p. channelPermissionImportParse ''1:2:3:role'' = Inr p
          \<and> pi_channel_id p \<noteq> ''1:2'' \<and> pi_overwrite_id p \<noteq> ''3'')"
proof -
  have a: "count_list ''123:role'' CHR '':'' < 2" by simp
  have b: "CHR '':'' \<notin> set ''123'' \<and> CHR '':'' \<notin> set ''member''" by simp
  have c: "(CHR '':'' \<in> set ''1:2'' \<or> CHR '':'' \<in> set ''3'') \<and> (''role'' = ''role'' \<or> ''role'' = ''member'')"
    by simp
  have c1: "CHR '':'' \<in> set ''1:2''" by simp
  note th = channelPermissionImportParse_spec[of "''123:role''" "''123''" "''member''" "''456''"
      "''1:2''" "''3''" "''role''"]
  from th a have r1: "channelPermissionImportParse ''123:role'' = Inl InvalidImportID" by blast
  from th b have r2: "channelPermissionImportParse (''123'' @ '':'' @ ''456'' @ '':'' @ ''member'')
       = Inr \<lparr>pi_channel_id = ''123'', pi_overwrite_id = ''456'', pi_type_str = ''member'',
              pi_overwrite_type = PermissionOverwriteTypeMember\<rparr>" by simp
  from th c c1 have r3: "\<exists>p. channelPermissionImportParse (''1:2'' @ '':'' @ ''3'' @ '':'' @ ''role'') = Inr p
          \<and> pi_channel_id p \<noteq> ''1:2'' \<and> pi_overwrite_id p \<noteq> ''3''" by blast
  show ?thesis using a b c1 r1 r2 r3 by simp
qed

theorem channelPermissionImportParse_overwrite_counterexample:
  "CHR '':'' \<in> set ''2:3''
   \<and> channelPermissionImportParse (''1'' @ '':'' @ ''2:3'' @ '':'' @ ''role'')
       = Inr \<lparr>pi_channel_id = ''1'', pi_overwrite_id = ''2:3'', pi_type_str = ''role'',
              pi_overwrite_type = PermissionOverwriteTypeRole\<rparr>"
  by code_simp

text \<open>
  C9. Whenever \<open>hexToDecimal\<close> or \<open>rgbToDecimal\<close> succeeds, the value lies between 0 and
  16777215, so \<open>Read\<close> never reports the colour range diagnostic.
\<close>

theorem color_range_check_unreachable:
  "(hexToDecimal s = (v, None) \<longrightarrow> 0 \<le> v \<and> v \<le> 16777215)
   \<and> (rgbToDecimal s = (v, None) \<longrightarrow> 0 \<le> v \<and> v \<le> 16777215)
   \<and> colorRead Hex RGB \<noteq> Inl InvalidColorRange"
proof -
  have h: "\<And>s v. hexToDecimal s = (v, None) \<Longrightarrow> checkColorRange v = Inr v"
    using hexToDecimal_range by (fastforce simp: checkColorRange_def)
  have r: "\<And>s v. rgbToDecimal s = (v, None) \<Longrightarrow> checkColorRange v = Inr v"
    using rgbToDecimal_range by (fastforce simp: checkColorRange_def)
  have "colorRead Hex RGB \<noteq> Inl InvalidColorRange"
  proof (cases "hexToDecimal (ValueString Hex)")
    case hx: (Pair hv he)
    show ?thesis
    proof (cases "rgbToDecimal (ValueString RGB)")
      case rx: (Pair rv re)
      show ?thesis
        using hx rx h[of "ValueString Hex" hv] r[of "ValueString RGB" rv]
        by (cases he; cases re) (auto simp: colorRead_def Let_def)
    qed
  qed
  then show ?thesis using hexToDecimal_range rgbToDecimal_range by blast
qed

theorem color_range_check_unreachable_witness:
  "hexToDecimal ''#FFFFFF'' = (16777215, None)
   \<and> 0 \<le> fst (hexToDecimal ''#FFFFFF'') \<and> fst (hexToDecimal ''#FFFFFF'') \<le> 16777215
   \<and> rgbToDecimal ''rgb(255,255,255)'' = (16777215, None)
   \<and> 0 \<le> fst (rgbToDecimal ''rgb(255,255,255)'') \<and> fst (rgbToDecimal ''rgb(255,255,255)'') \<le> 16777215"
proof -
  have a: "hexToDecimal ''#FFFFFF'' = (16777215, None)" by code_simp
  have b: "rgbToDecimal ''rgb(255,255,255)'' = (16777215, None)" by code_simp
  have a': "hexToDecimal ''#FFFFFF'' = (fst (hexToDecimal ''#FFFFFF''), None)" using a by simp
  have b': "rgbToDecimal ''rgb(255,255,255)'' = (fst (rgbToDecimal ''rgb(255,255,255)''), None)"
    using b by simp
  from color_range_check_unreachable[of "''#FFFFFF''" "fst (hexToDecimal ''#FFFFFF'')"] a'
  have r1: "0 \<le> fst (hexToDecimal ''#FFFFFF'') \<and> fst (hexToDecimal ''#FFFFFF'') \<le> 16777215"
    by blast
  from color_range_check_unreachable[of "''rgb(255,255,255)''"
      "fst (rgbToDecimal ''rgb(255,255,255)'')"] b'
  have r2: "0 \<le> fst (rgbToDecimal ''rgb(255,255,255)'')
            \<and> fst (rgbToDecimal ''rgb(255,255,255)'') \<le> 16777215"
    by blast
  show ?thesis using a b r1 r2 by blast
qed

text \<open>
  C10. The message and the emoji importer disagree on an ID with two colons or more:
  the message importer splits it at the first colon and accepts it, the emoji importer
  refuses it, as it refuses every ID that does not have exactly one colon.
\<close>

theorem two_segment_importers_disagree:
  "(2 \<le> count_list s CHR '':'' \<longrightarrow>
      (\<exists>a b. s = a @ '':'' @ b \<and> CHR '':'' \<notin> set a
          \<and> messageImportState s = Inr \<lparr>channel_id = a, message_id = b, id = b\<rparr>)
      \<and> emojiImportState s = Inl InvalidImportIDFormat)
   \<and> (count_list s CHR '':'' \<noteq> 1 \<longrightarrow> (\<exists>d. emojiImportState s = Inl d \<and> isInvalidImportID d))
   \<and> (count_list s CHR '':'' = 1 \<longrightarrow> (\<exists>st. emojiImportState s = Inr st))
   \<and> messageImportState ''a:b:c'' = Inr \<lparr>channel_id = ''a'', message_id = ''b:c'', id = ''b:c''\<rparr>
   \<and> emojiImportState ''a:b:c'' = Inl InvalidImportIDFormat"
proof -
  have p1: "2 \<le> count_list s CHR '':'' \<longrightarrow>
      (\<exists>a b. s = a @ '':'' @ b \<and> CHR '':'' \<notin> set a
          \<and> messageImportState s = Inr \<lparr>channel_id = a, message_id = b, id = b\<rparr>)
      \<and> emojiImportState s = Inl InvalidImportIDFormat"
  proof
    assume ge: "2 \<le> count_list s CHR '':''"
    then obtain a b where s: "s = a @ CHR '':'' # b" and a: "CHR '':'' \<notin> set a"
      by (rule colon_count_ge2E)
    have "messageImportState s = Inr \<lparr>channel_id = a, message_id = b, id = b\<rparr>"
      unfolding s by (rule messageImportState_colon[OF a])
    then have m: "\<exists>a b. s = a @ '':'' @ b \<and> CHR '':'' \<notin> set a
          \<and> messageImportState s = Inr \<lparr>channel_id = a, message_id = b, id = b\<rparr>"
      using s a by auto
    have "s \<noteq> []" using s by simp
    then have "emojiImportState s = Inl InvalidImportIDFormat"
      using ge by (simp add: emojiImportState_count)
    with m show "(\<exists>a b. s = a @ '':'' @ b \<and> CHR '':'' \<notin> set a
          \<and> messageImportState s = Inr \<lparr>channel_id = a, message_id = b, id = b\<rparr>)
      \<and> emojiImportState s = Inl InvalidImportIDFormat" by blast
  qed
  have p2: "count_list s CHR '':'' \<noteq> 1 \<longrightarrow> (\<exists>d. emojiImportState s = Inl d \<and> isInvalidImportID d)"
    by (simp add: emojiImportState_count isInvalidImportID_def)
  have p3: "count_list s CHR '':'' = 1 \<longrightarrow> (\<exists>st. emojiImportState s = Inr st)"
    by (auto simp: emojiImportState_count)
  have ex1: "messageImportState ''a:b:c''
               = Inr \<lparr>channel_id = ''a'', message_id = ''b:c'', id = ''b:c''\<rparr>" by code_simp
  have ex2: "emojiImportState ''a:b:c'' = Inl InvalidImportIDFormat" by code_simp
  show ?thesis using p1 p2 p3 ex1 ex2 by blast
qed

theorem two_segment_importers_disagree_witness:
  "2 \<le> count_list ''1:2:3:4'' CHR '':''
   \<and> (\<exists>a b. ''1:2:3:4'' = a @ '':'' @ b \<and> CHR '':'' \<notin> set a
          \<and> messageImportState ''1:2:3:4'' = Inr \<lparr>channel_id = a, message_id = b, id = b\<rparr>)
   \<and> emojiImportState ''1:2:3:4'' = Inl InvalidImportIDFormat"
proof -
  have c: "2 \<le> count_list ''1:2:3:4'' CHR '':''" by simp
  show ?thesis
    using two_segment_importers_disagree[of "''1:2:3:4''"] c by blast
qed

end
